theory Spec2Isabelle
  imports Complex_Main "HOL-Library.Product_Lexorder" "HOL-Library.Sublist" "HOL-Library.Word"
begin

section \<open>Python strings and library functions used by the engine\<close>

text \<open>
  A Python \<open>str\<close> is a sequence of Unicode code points; \<open>len\<close>, slicing, \<open>in\<close> and
  \<open>ord\<close>/\<open>chr\<close> work on code points. It is modelled as a list of code points.
  Tier labels, which the code writes as ASCII literals, are HOL strings.
\<close>

type_synonym ustr = "nat list"

text \<open>
  \<open>str.isspace\<close> for one character: the code points for which CPython's
  \<open>str.strip()\<close> and \<open>str.split()\<close> treat the character as whitespace.
\<close>

definition is_space :: "nat \<Rightarrow> bool" where
  "is_space c \<longleftrightarrow>
     (9 \<le> c \<and> c \<le> 13) \<or> (28 \<le> c \<and> c \<le> 32) \<or> c = 133 \<or> c = 160 \<or> c = 5760 \<or>
     (8192 \<le> c \<and> c \<le> 8202) \<or> c = 8232 \<or> c = 8233 \<or> c = 8239 \<or> c = 8287 \<or> c = 12288"

text \<open>\<open>s.strip()\<close>: whitespace removed at both ends.\<close>

definition strip :: "ustr \<Rightarrow> ustr" where
  "strip s = rev (dropWhile is_space (rev (dropWhile is_space s)))"

text \<open>\<open>s.split()\<close>: the maximal runs of non-whitespace characters, in order.\<close>

fun split_acc :: "ustr \<Rightarrow> ustr \<Rightarrow> ustr list" where
  "split_acc cur [] = (if cur = [] then [] else [cur])"
| "split_acc cur (c # cs) =
     (if is_space c then (if cur = [] then split_acc [] cs else cur # split_acc [] cs)
      else split_acc (cur @ [c]) cs)"

definition split_ws :: "ustr \<Rightarrow> ustr list" where
  "split_ws s = split_acc [] s"

text \<open>
  \<open>sorted(xs, key=f, reverse=True)\<close> and \<open>xs.sort(key=f, reverse=True)\<close>: a stable sort
  by descending key; elements with equal keys keep their original order.
\<close>

definition sort_desc_key :: "('a \<Rightarrow> 'k::linorder) \<Rightarrow> 'a list \<Rightarrow> 'a list" where
  "sort_desc_key f xs = rev (sort_key f (rev xs))"

section \<open>Text normalizer: \<open>normalize_search_text_ultra\<close>\<close>

text \<open>
  \<open>str.lower\<close> and \<open>unicodedata.normalize('NFKC', \<cdot>)\<close> belong to the Python library; the
  model takes them as the parameters \<open>lower\<close> and \<open>nfkc\<close>. The module imports
  \<open>unicodedata\<close> unconditionally, so the branches under \<open>unicodedata is not None\<close> are
  the ones taken.
\<close>

definition to_full_width :: "ustr \<Rightarrow> ustr" where
  "to_full_width s = map (\<lambda>c. if 0x21 \<le> c \<and> c \<le> 0x7E then c + 0xFEE0 else c) s"

definition hiragana_to_katakana :: "ustr \<Rightarrow> ustr" where
  "hiragana_to_katakana s = map (\<lambda>c. if 0x3041 \<le> c \<and> c \<le> 0x3096 then c + 0x60 else c) s"

definition katakana_to_hiragana :: "ustr \<Rightarrow> ustr" where
  "katakana_to_hiragana s = map (\<lambda>c. if 0x30A1 \<le> c \<and> c \<le> 0x30F6 then c - 0x60 else c) s"

text \<open>\<open>if p not in patterns: patterns.append(p)\<close>\<close>

definition append_new :: "'a \<Rightarrow> 'a list \<Rightarrow> 'a list" where
  "append_new p ps = (if p \<in> set ps then ps else ps @ [p])"

text \<open>\<open>if v != base: patterns.append(v)\<close>\<close>

definition append_if_differs :: "'a \<Rightarrow> 'a \<Rightarrow> 'a list \<Rightarrow> 'a list" where
  "append_if_differs v base ps = (if v \<noteq> base then ps @ [v] else ps)"

text \<open>The loop over the single characters of the query.\<close>

definition add_chars :: "ustr \<Rightarrow> ustr list \<Rightarrow> ustr list" where
  "add_chars text ps =
     fold (\<lambda>c acc. if [c] \<notin> set acc \<and> length (strip [c]) > 0 then acc @ [[c]] else acc) text ps"

text \<open>The loop over the bigrams \<open>text[i:i+2]\<close> for \<open>i\<close> in \<open>range(len(text) - 1)\<close>.\<close>

definition add_bigrams :: "ustr \<Rightarrow> ustr list \<Rightarrow> ustr list" where
  "add_bigrams text ps =
     fold (\<lambda>i acc. append_new (take 2 (drop i text)) acc) [0 ..< length text - 1] ps"

text \<open>The loop over the whitespace-separated words and their NFKC forms.\<close>

definition add_words :: "(ustr \<Rightarrow> ustr) \<Rightarrow> ustr list \<Rightarrow> ustr list \<Rightarrow> ustr list" where
  "add_words nfkc ws ps = fold (\<lambda>w acc. append_new (nfkc w) (append_new w acc)) ws ps"

text \<open>The list \<open>patterns\<close> as it stands before the de-duplication.\<close>

definition raw_patterns :: "(ustr \<Rightarrow> ustr) \<Rightarrow> (ustr \<Rightarrow> ustr) \<Rightarrow> ustr \<Rightarrow> ustr list" where
  "raw_patterns lower nfkc text =
     (let p0 = [text];
          half_width = nfkc text;
          p1 = append_if_differs half_width text p0;
          full_width = to_full_width text;
          p2 = append_if_differs full_width text p1;
          normalized = lower text;
          p3 = append_if_differs normalized text p2;
          p4 = (if length text \<ge> 2 then add_bigrams text (add_chars text p3) else p3);
          p5 = append_if_differs (hiragana_to_katakana normalized) normalized p4;
          p6 = append_if_differs (katakana_to_hiragana normalized) normalized p5;
          ws = split_ws text
      in if length ws > 1 then add_words nfkc ws p6 else p6)"

text \<open>
  \<open>unique_patterns\<close>: the original first, then every pattern not yet present and
  different from the original.
\<close>

definition unique_patterns :: "ustr \<Rightarrow> ustr list \<Rightarrow> ustr list" where
  "unique_patterns text ps =
     fold (\<lambda>p acc. if p \<notin> set acc \<and> p \<noteq> text then acc @ [p] else acc) ps [text]"

definition normalize_search_text_ultra ::
  "(ustr \<Rightarrow> ustr) \<Rightarrow> (ustr \<Rightarrow> ustr) \<Rightarrow> ustr \<Rightarrow> ustr \<times> ustr \<times> ustr \<times> ustr list" where
  "normalize_search_text_ultra lower nfkc text =
     (if text = [] then ([], [], [], [])
      else
        let uniq = unique_patterns text (raw_patterns lower nfkc text);
            first_pattern = (case uniq of p # _ \<Rightarrow> p | [] \<Rightarrow> []);
            remaining_patterns = sort_desc_key length (tl uniq)
        in (nfkc text, to_full_width text, hiragana_to_katakana (lower text),
            first_pattern # remaining_patterns))"

text \<open>The pattern list is the fourth component of the result.\<close>

definition patterns :: "(ustr \<Rightarrow> ustr) \<Rightarrow> (ustr \<Rightarrow> ustr) \<Rightarrow> ustr \<Rightarrow> ustr list" where
  "patterns lower nfkc q = snd (snd (snd (normalize_search_text_ultra lower nfkc q)))"

text \<open>
  Instances of the two library functions for running the model on examples:
  \<open>str.lower\<close> on ASCII text, and NFKC on text made of ASCII, plain kana and the
  squared-katakana character U+3314, whose NFKC form is the two katakana U+30AD U+30ED.
  The general theorems quantify over arbitrary \<open>lower\<close> and \<open>nfkc\<close>.
\<close>

definition ascii_lower :: "ustr \<Rightarrow> ustr" where
  "ascii_lower s = map (\<lambda>c. if 0x41 \<le> c \<and> c \<le> 0x5A then c + 0x20 else c) s"

definition nfkc_sample :: "ustr \<Rightarrow> ustr" where
  "nfkc_sample s = concat (map (\<lambda>c. if c = 0x3314 then [0x30AD, 0x30ED] else [c]) s)"

section \<open>Query planner: \<open>_deduplicate_and_rank_optimized\<close>\<close>

text \<open>
  A result row as the three tier searches build it. Of the dictionary's keys the
  de-duplication reads \<open>file_path\<close>, \<open>layer\<close> and \<open>relevance_score\<close>; every row a tier
  returns is a dictionary that holds all three, and the score is a float.
\<close>

record search_row =
  file_path :: ustr
  layer :: string
  relevance_score :: real

text \<open>
  The tier labels the searches write: \<open>'immediate'\<close>, \<open>'hot'\<close>, and for shard \<open>i\<close>
  \<open>f'complete_db_{i}'\<close> or \<open>f'complete_db_{i}_like'\<close>.
\<close>

definition tier_label :: "string \<Rightarrow> bool" where
  "tier_label l \<longleftrightarrow> l = ''immediate'' \<or> l = ''hot'' \<or> prefix ''complete_db_'' l"

definition priority_map :: "string \<rightharpoonup> nat" where
  "priority_map = [''complete'' \<mapsto> 1000, ''immediate'' \<mapsto> 100, ''hot'' \<mapsto> 10]"

text \<open>\<open>s.split(sep)\<close> for a separator of one character; the result is never empty.\<close>

fun split_char :: "'a \<Rightarrow> 'a list \<Rightarrow> 'a list list" where
  "split_char sep [] = [[]]"
| "split_char sep (c # cs) =
     (if c = sep then [] # split_char sep cs
      else (case split_char sep cs of p # ps \<Rightarrow> (c # p) # ps | [] \<Rightarrow> [[c]]))"

text \<open>\<open>layer.split('_')[0] if '_' in layer else layer\<close>\<close>

definition layer_base :: "string \<Rightarrow> string" where
  "layer_base l =
     (if CHR ''_'' \<in> set l then (case split_char (CHR ''_'') l of b # _ \<Rightarrow> b | [] \<Rightarrow> []) else l)"

text \<open>\<open>priority_map.get(layer_base, 1)\<close>\<close>

definition layer_priority :: "string \<Rightarrow> nat" where
  "layer_priority l = (case priority_map (layer_base l) of Some p \<Rightarrow> p | None \<Rightarrow> 1)"

text \<open>The sort key \<open>(priority, score)\<close>; Python compares tuples lexicographically.\<close>

definition get_priority :: "search_row \<Rightarrow> nat \<times> real" where
  "get_priority r = (layer_priority (layer r), relevance_score r)"

text \<open>
  The loop over the sorted rows, with its two accumulators \<open>seen_paths\<close> and
  \<open>unique_results\<close>.
\<close>

fun dedup_loop :: "ustr set \<Rightarrow> search_row list \<Rightarrow> search_row list \<Rightarrow> search_row list" where
  "dedup_loop seen_paths unique_results [] = unique_results"
| "dedup_loop seen_paths unique_results (r # rs) =
     (if file_path r \<notin> seen_paths
      then dedup_loop (insert (file_path r) seen_paths) (unique_results @ [r]) rs
      else dedup_loop seen_paths unique_results rs)"

definition deduplicate_and_rank_optimized :: "search_row list \<Rightarrow> search_row list" where
  "deduplicate_and_rank_optimized results =
     (if results = [] then []
      else dedup_loop {} [] (sort_desc_key get_priority results))"

text \<open>The rows the loop appends, without the accumulator; used to reason about the loop.\<close>

fun keep_first :: "ustr set \<Rightarrow> search_row list \<Rightarrow> search_row list" where
  "keep_first seen [] = []"
| "keep_first seen (r # rs) =
     (if file_path r \<notin> seen then r # keep_first (insert (file_path r) seen) rs
      else keep_first seen rs)"

section \<open>Search entry point: \<open>ultra_fast_search\<close>\<close>

text \<open>
  The three tier searches are methods of the engine that read the caches and the shard
  stores; the entry point only calls them. They are parameters of the model: each takes
  the query and returns its rows, or \<open>None\<close> when it raises. Every call is recorded in
  a log, so that a theorem can say that a tier was not consulted. The wall-clock fields
  of \<open>stats\<close> (\<open>total_search_time\<close>, \<open>avg_search_time\<close>) are left out.
\<close>

record tier_searches =
  search_immediate_layer :: "ustr \<Rightarrow> search_row list option"
  search_hot_layer :: "ustr \<Rightarrow> search_row list option"
  search_complete_layer :: "ustr \<Rightarrow> int \<Rightarrow> search_row list option"

record search_stats =
  search_count :: nat
  immediate_layer_hits :: nat
  hot_layer_hits :: nat
  complete_layer_hits :: nat
  error_count :: nat

datatype search_event =
    ConsultImmediate ustr
  | ConsultHot ustr
  | ConsultComplete ustr int
  | StartCacheResultsTimer ustr "search_row list"

text \<open>\<open>xs[:n]\<close> for an integer \<open>n\<close>: a negative \<open>n\<close> counts from the end.\<close>

definition py_take :: "int \<Rightarrow> 'a list \<Rightarrow> 'a list" where
  "py_take n xs = (if 0 \<le> n then take (nat n) xs else take (length xs - nat (- n)) xs)"

text \<open>
  The body of the \<open>try\<close> block; \<open>None\<close> as a tier's answer is an exception, which the
  \<open>except\<close> clause turns into the empty list and a count in \<open>error_count\<close>.
\<close>

definition ultra_fast_search ::
  "tier_searches \<Rightarrow> search_stats \<Rightarrow> ustr \<Rightarrow> int \<Rightarrow>
     search_row list \<times> search_stats \<times> search_event list" where
  "ultra_fast_search tiers stats query0 max_results =
     (if query0 = [] \<or> strip query0 = [] then ([], stats, [])
      else
        let query = strip query0;
            stats1 = stats\<lparr>search_count := search_count stats + 1\<rparr>;
            failed = (\<lambda>log. ([], stats1\<lparr>error_count := error_count stats1 + 1\<rparr>, log))
        in case search_immediate_layer tiers query of
             None \<Rightarrow> failed [ConsultImmediate query]
           | Some immediate_results \<Rightarrow>
               if immediate_results \<noteq> [] then
                 (py_take max_results immediate_results,
                  stats1\<lparr>immediate_layer_hits := immediate_layer_hits stats1 + 1\<rparr>,
                  [ConsultImmediate query])
               else
                 (case search_hot_layer tiers query of
                    None \<Rightarrow> failed [ConsultImmediate query, ConsultHot query]
                  | Some hot_results \<Rightarrow>
                      if hot_results \<noteq> [] then
                        (py_take max_results hot_results,
                         stats1\<lparr>hot_layer_hits := hot_layer_hits stats1 + 1\<rparr>,
                         [ConsultImmediate query, ConsultHot query,
                          StartCacheResultsTimer query hot_results])
                      else
                        (case search_complete_layer tiers query max_results of
                           None \<Rightarrow>
                             failed [ConsultImmediate query, ConsultHot query,
                                     ConsultComplete query max_results]
                         | Some complete_results \<Rightarrow>
                             (complete_results,
                              stats1\<lparr>complete_layer_hits := complete_layer_hits stats1 + 1\<rparr>,
                              [ConsultImmediate query, ConsultHot query,
                               ConsultComplete query max_results] @
                              (if complete_results \<noteq> []
                               then [StartCacheResultsTimer query complete_results]
                               else [])))))"

section \<open>Tiered cache and indexing\<close>

subsection \<open>Python dictionaries and strings\<close>

text \<open>
  A Python \<open>dict\<close> keeps its keys in insertion order, and the evictions below depend on
  that order when two entries have the same \<open>indexed_time\<close>. The caches are therefore
  association lists with one pair per key: \<open>d[k] = v\<close> replaces the value in place when
  the key is present and appends the pair otherwise, \<open>del d[k]\<close> removes the pair.
\<close>

definition dict_keys :: "('k \<times> 'v) list \<Rightarrow> 'k list" where
  "dict_keys d = map fst d"

definition dict_set :: "'k \<Rightarrow> 'v \<Rightarrow> ('k \<times> 'v) list \<Rightarrow> ('k \<times> 'v) list" where
  "dict_set k v d =
     (if k \<in> set (dict_keys d) then map (\<lambda>kv. if fst kv = k then (k, v) else kv) d
      else d @ [(k, v)])"

definition dict_del :: "'k \<Rightarrow> ('k \<times> 'v) list \<Rightarrow> ('k \<times> 'v) list" where
  "dict_del k d = filter (\<lambda>kv. fst kv \<noteq> k) d"

text \<open>An ASCII literal of the source as a Python string.\<close>

definition ascii :: "string \<Rightarrow> ustr" where
  "ascii s = map of_char s"

text \<open>
  \<open>s.encode('utf-8')\<close> raises \<open>UnicodeEncodeError\<close> exactly when the string holds a
  surrogate code point.
\<close>

definition utf8_encodable :: "ustr \<Rightarrow> bool" where
  "utf8_encodable s \<longleftrightarrow> (\<forall>c\<in>set s. \<not> (0xD800 \<le> c \<and> c \<le> 0xDFFF))"

text \<open>The local \<open>safe_truncate_utf8\<close> of \<open>live_progressive_index_file\<close>.\<close>

definition safe_truncate_utf8 :: "ustr \<Rightarrow> nat \<Rightarrow> ustr" where
  "safe_truncate_utf8 text max_length =
     (if length text \<le> max_length then text
      else if utf8_encodable (take max_length text) then take max_length text
      else if max_length > 1 then take (max_length - 1) text else [])"

subsection \<open>Engine state\<close>

text \<open>
  A cache entry is a dictionary; the record has one field per key that the engine writes.
  \<open>content_preview\<close> is set by the indexer, \<open>content\<close> and \<open>moved_from_immediate\<close> by the
  promotion to the hot tier.
\<close>

record cache_entry =
  ce_file_path :: ustr
  ce_file_name :: ustr
  ce_content_preview :: "ustr option"
  ce_content :: "ustr option"
  ce_file_type :: ustr
  ce_size :: nat
  ce_indexed_time :: real
  ce_layer :: string
  ce_moved_from_immediate :: "real option"

text \<open>Timers started with \<open>threading.Timer\<close>, with their arguments.\<close>

datatype timer =
    MoveToHotTimer ustr ustr
  | MoveToCompleteTimer ustr ustr string
  | SaveCachesTimer

text \<open>
  The order of the engine's effects on its caches, on the extractor and on the cache file
  is kept in a log, so that a theorem can say that one effect comes before another or
  does not happen.
\<close>

datatype effect =
    ExtractContent ustr
  | ImmediateSet ustr
  | ImmediateDel ustr
  | HotSet ustr
  | HotDel ustr
  | WriteHotCacheFile

text \<open>
  The state of an engine: the two cache dictionaries and their limits, the flags, the
  counter \<open>stats["indexed_files"]\<close>, the timers started so far, and the contents of
  \<open>cache/hot_cache.json\<close> (\<open>None\<close> when the file does not exist).
\<close>

record engine =
  immediate_cache :: "(ustr \<times> cache_entry) list"
  hot_cache :: "(ustr \<times> cache_entry) list"
  max_immediate_cache :: nat
  max_hot_cache :: nat
  indexing_cancelled :: bool
  shutdown_requested :: bool
  indexed_files :: nat
  last_save_time :: real
  timers :: "timer list"
  hot_cache_file :: "(ustr \<times> cache_entry) list option"
  effects :: "effect list"

text \<open>
  What the file system, the clock and the extractor answer during one call: the parts
  \<open>Path(file_path).name\<close> and \<open>Path(file_path).suffix.lower()\<close> of the path, whether the
  file exists, its size, the time, the text that \<open>_extract_file_content\<close> would return
  and the MD5 hex digest of that text.
\<close>

record file_probe =
  base_name :: ustr
  suffix_lower :: ustr
  file_exists :: bool
  st_size :: nat
  now :: real
  extracted_content :: ustr
  content_md5 :: "ustr \<Rightarrow> string"

definition immediate_set :: "ustr \<Rightarrow> cache_entry \<Rightarrow> engine \<Rightarrow> engine" where
  "immediate_set k v st =
     st\<lparr>immediate_cache := dict_set k v (immediate_cache st),
        effects := effects st @ [ImmediateSet k]\<rparr>"

definition immediate_del :: "ustr \<Rightarrow> engine \<Rightarrow> engine" where
  "immediate_del k st =
     st\<lparr>immediate_cache := dict_del k (immediate_cache st),
        effects := effects st @ [ImmediateDel k]\<rparr>"

definition hot_set :: "ustr \<Rightarrow> cache_entry \<Rightarrow> engine \<Rightarrow> engine" where
  "hot_set k v st =
     st\<lparr>hot_cache := dict_set k v (hot_cache st), effects := effects st @ [HotSet k]\<rparr>"

definition hot_del :: "ustr \<Rightarrow> engine \<Rightarrow> engine" where
  "hot_del k st =
     st\<lparr>hot_cache := dict_del k (hot_cache st), effects := effects st @ [HotDel k]\<rparr>"

definition start_timer :: "timer \<Rightarrow> engine \<Rightarrow> engine" where
  "start_timer t st = st\<lparr>timers := timers st @ [t]\<rparr>"

text \<open>
  The clean-up of the immediate tier: when it holds more than \<open>max_immediate_cache\<close>
  entries, the \<open>max(1, max_immediate_cache // 10)\<close> entries with the oldest
  \<open>indexed_time\<close> are deleted (\<open>sorted\<close> is stable).
\<close>

definition evict_immediate :: "engine \<Rightarrow> engine" where
  "evict_immediate st =
     (if length (immediate_cache st) > max_immediate_cache st then
        let cleanup_count = max 1 (max_immediate_cache st div 10);
            sorted_items = sort_key (\<lambda>kv. ce_indexed_time (snd kv)) (immediate_cache st)
        in fold immediate_del (map fst (take cleanup_count sorted_items)) st
      else st)"

text \<open>
  \<open>min(self.hot_cache.keys(), key=...)\<close>: the first key, in dictionary order, whose
  \<open>indexed_time\<close> is minimal.
\<close>

fun oldest_key :: "(ustr \<times> cache_entry) list \<Rightarrow> ustr option" where
  "oldest_key [] = None"
| "oldest_key (kv # d) =
     (case oldest_key d of
        None \<Rightarrow> Some (fst kv)
      | Some k' \<Rightarrow>
          (case map_of d k' of
             None \<Rightarrow> Some (fst kv)
           | Some v' \<Rightarrow>
               if ce_indexed_time (snd kv) \<le> ce_indexed_time v' then Some (fst kv)
               else Some k'))"

definition evict_hot :: "engine \<Rightarrow> engine" where
  "evict_hot st =
     (if length (hot_cache st) > max_hot_cache st then
        (case oldest_key (hot_cache st) of Some k \<Rightarrow> hot_del k st | None \<Rightarrow> st)
      else st)"

subsection \<open>Monolithic engine (\<open>file_search_app.py\<close>)\<close>

definition MiB :: nat where
  "MiB = 1024 * 1024"

text \<open>
  \<open>live_progressive_index_file\<close>. An exception anywhere in the body is caught and makes
  the call return \<open>False\<close>; the extractor catches its own exceptions and returns the
  empty string.
\<close>

definition live_progressive_index_file :: "engine \<Rightarrow> ustr \<Rightarrow> file_probe \<Rightarrow> bool \<times> engine" where
  "live_progressive_index_file st path probe =
     (if indexing_cancelled st then (False, st)
      else if prefix (ascii ''._'') (base_name probe) then (False, st)
      else if prefix (ascii ''.DS_Store'') (base_name probe) \<or>
              prefix (ascii ''Thumbs.db'') (base_name probe) then (False, st)
      else if \<not> file_exists probe then (False, st)
      else if st_size probe > 500 * MiB then (False, st)
      else
        let (content, st1) =
              (if st_size probe \<ge> 3 * MiB then (base_name probe, st)
               else (extracted_content probe,
                     st\<lparr>effects := effects st @ [ExtractContent path]\<rparr>))
        in if content = [] then (False, st1)
           else
             let file_hash = content_md5 probe content;
                 immediate_data =
                   \<lparr>ce_file_path = path,
                    ce_file_name = base_name probe,
                    ce_content_preview = Some (safe_truncate_utf8 content 500),
                    ce_content = None,
                    ce_file_type = suffix_lower probe,
                    ce_size = st_size probe,
                    ce_indexed_time = now probe,
                    ce_layer = ''immediate'',
                    ce_moved_from_immediate = None\<rparr>;
                 st2 = immediate_set path immediate_data st1;
                 st3 = evict_immediate st2;
                 st4 = start_timer (MoveToHotTimer path content) st3;
                 st5 = start_timer (MoveToCompleteTimer path content file_hash) st4
             in (True, st5\<lparr>indexed_files := indexed_files st5 + 1\<rparr>))"

text \<open>
  The entry \<open>base_data\<close> rebuilt from the path when the source tier no longer holds it.
\<close>

definition rebuilt_base_data :: "ustr \<Rightarrow> file_probe \<Rightarrow> cache_entry" where
  "rebuilt_base_data path probe =
     \<lparr>ce_file_path = path,
      ce_file_name = base_name probe,
      ce_content_preview = None,
      ce_content = None,
      ce_file_type = suffix_lower probe,
      ce_size = (if file_exists probe then st_size probe else 0),
      ce_indexed_time = now probe,
      ce_layer = [],
      ce_moved_from_immediate = None\<rparr>"

text \<open>\<open>hot_data = base_data.copy(); hot_data.update({...})\<close>\<close>

definition hot_data_of :: "cache_entry \<Rightarrow> ustr \<Rightarrow> ustr \<Rightarrow> real \<Rightarrow> cache_entry" where
  "hot_data_of base_data path content t =
     base_data\<lparr>ce_file_path := path,
               ce_content := Some (take 10000 content),
               ce_layer := ''hot'',
               ce_moved_from_immediate := Some t\<rparr>"

text \<open>\<open>_move_to_hot_layer\<close> of the monolithic engine.\<close>

definition move_to_hot_layer :: "engine \<Rightarrow> ustr \<Rightarrow> ustr \<Rightarrow> file_probe \<Rightarrow> engine" where
  "move_to_hot_layer st path content probe =
     (let (base_data, st1) =
            (case map_of (immediate_cache st) path of
               Some e \<Rightarrow> (e, immediate_del path st)
             | None \<Rightarrow> (rebuilt_base_data path probe, st));
          st2 = hot_set path (hot_data_of base_data path content (now probe)) st1;
          st3 = evict_hot st2
      in if now probe - last_save_time st3 > 5 \<and> \<not> shutdown_requested st3
         then start_timer SaveCachesTimer (st3\<lparr>last_save_time := now probe\<rparr>)
         else st3)"

text \<open>
  \<open>_save_caches_sync\<close>: the hot tier is written to \<open>cache/hot_cache.json\<close> when it is not
  empty. \<open>write_ok\<close> tells whether opening and writing the file succeeds; a failure is
  caught and logged, and leaves a file that holds no entry.
\<close>

definition save_caches_sync :: "bool \<Rightarrow> engine \<Rightarrow> engine" where
  "save_caches_sync write_ok st =
     (if hot_cache st \<noteq> [] then
        st\<lparr>hot_cache_file := (if write_ok then Some (hot_cache st) else Some []),
           effects := effects st @ [WriteHotCacheFile]\<rparr>
      else st)"

text \<open>\<open>shutdown\<close> of the monolithic engine.\<close>

definition shutdown :: "bool \<Rightarrow> engine \<Rightarrow> engine" where
  "shutdown write_ok st = save_caches_sync write_ok (st\<lparr>shutdown_requested := True\<rparr>)"

subsection \<open>Modular engine (\<open>modules/search/cache_manager.py\<close>)\<close>

text \<open>
  \<open>CacheManager._safe_truncate_utf8\<close>: when the cut at \<open>max_length\<close> does not encode, the
  cuts at \<open>max_length - 1\<close>, ..., \<open>max_length - min(4, max_length)\<close> are tried in that
  order and the first one that encodes is returned, the empty string if none does.
\<close>

definition cm_safe_truncate_utf8 :: "ustr \<Rightarrow> nat \<Rightarrow> ustr" where
  "cm_safe_truncate_utf8 text max_length =
     (if text = [] \<or> length text \<le> max_length then text
      else if utf8_encodable (take max_length text) then take max_length text
      else case find utf8_encodable
                  (map (\<lambda>i. take (max_length - i) text) [1 ..< min 4 max_length + 1]) of
             Some safe_text \<Rightarrow> safe_text
           | None \<Rightarrow> [])"

text \<open>
  \<open>CacheManager.add_to_immediate_cache\<close>; \<open>file_data\<close> carries the name, the type and
  the size of the file.
\<close>

definition add_to_immediate_cache :: "engine \<Rightarrow> ustr \<Rightarrow> ustr \<Rightarrow> file_probe \<Rightarrow> engine" where
  "add_to_immediate_cache st path content file_data =
     (let immediate_data =
            \<lparr>ce_file_path = path,
             ce_file_name = base_name file_data,
             ce_content_preview = Some (cm_safe_truncate_utf8 content 500),
             ce_content = None,
             ce_file_type = suffix_lower file_data,
             ce_size = st_size file_data,
             ce_indexed_time = now file_data,
             ce_layer = ''immediate'',
             ce_moved_from_immediate = None\<rparr>;
          st1 = immediate_set path immediate_data st;
          st2 = evict_immediate st1
      in start_timer (MoveToHotTimer path content) st2)"

text \<open>\<open>CacheManager._move_to_hot_layer\<close>\<close>

definition cm_move_to_hot_layer :: "engine \<Rightarrow> ustr \<Rightarrow> ustr \<Rightarrow> file_probe \<Rightarrow> engine" where
  "cm_move_to_hot_layer st path content probe =
     (if shutdown_requested st then st
      else
        let (base_data, st1) =
              (case map_of (immediate_cache st) path of
                 Some e \<Rightarrow> (e, immediate_del path st)
               | None \<Rightarrow> (rebuilt_base_data path probe, st));
            st2 = hot_set path (hot_data_of base_data path content (now probe)) st1
        in evict_hot st2)"

text \<open>\<open>CacheManager.save_caches\<close>\<close>

definition cm_save_caches :: "bool \<Rightarrow> engine \<Rightarrow> engine" where
  "cm_save_caches write_ok st =
     (if shutdown_requested st then st
      else st\<lparr>hot_cache_file := (if write_ok then Some (hot_cache st) else Some []),
              effects := effects st @ [WriteHotCacheFile]\<rparr>)"

text \<open>
  \<open>CacheManager.shutdown\<close>: the flag is set, the pending timers are cancelled and the
  list is cleared, then \<open>save_caches\<close> is called.
\<close>

definition cm_shutdown :: "bool \<Rightarrow> engine \<Rightarrow> engine" where
  "cm_shutdown write_ok st =
     cm_save_caches write_ok (st\<lparr>shutdown_requested := True, timers := []\<rparr>)"

subsection \<open>Sequences of operations\<close>

datatype cache_op =
    Index ustr file_probe
  | MoveToHot ustr ustr file_probe
  | CmAdd ustr ustr file_probe
  | CmMoveToHot ustr ustr file_probe

fun run_op :: "cache_op \<Rightarrow> engine \<Rightarrow> engine" where
  "run_op (Index p probe) st = snd (live_progressive_index_file st p probe)"
| "run_op (MoveToHot p content probe) st = move_to_hot_layer st p content probe"
| "run_op (CmAdd p content probe) st = add_to_immediate_cache st p content probe"
| "run_op (CmMoveToHot p content probe) st = cm_move_to_hot_layer st p content probe"

definition run_ops :: "cache_op list \<Rightarrow> engine \<Rightarrow> engine" where
  "run_ops ops st = fold run_op ops st"

text \<open>A freshly started engine with the given limits.\<close>

definition initial_engine :: "nat \<Rightarrow> nat \<Rightarrow> engine" where
  "initial_engine max_imm max_hot =
     \<lparr>immediate_cache = [], hot_cache = [], max_immediate_cache = max_imm,
      max_hot_cache = max_hot, indexing_cancelled = False, shutdown_requested = False,
      indexed_files = 0, last_save_time = 0, timers = [], hot_cache_file = None,
      effects = []\<rparr>"

section \<open>Shard router: \<open>get_db_index_for_file\<close>\<close>

text \<open>
  The two engines have the same router:
  \<open>int(hashlib.md5(file_path.encode('utf-8')).hexdigest(), 16) % self.db_count\<close>.
  The exceptions that its library calls can raise are values of the model.
\<close>

datatype py_error = UnicodeEncodeError | ValueError | ZeroDivisionError

type_synonym byte = "8 word"

text \<open>
  \<open>str.encode('utf-8')\<close>: one to four bytes per code point; a surrogate cannot be
  encoded. (A Python string holds no code point above \<open>0x10FFFF\<close>.)
\<close>

definition encode_char :: "nat \<Rightarrow> byte list option" where
  "encode_char c =
     (if c < 0x80 then Some [of_nat c]
      else if c < 0x800 then Some [of_nat (0xC0 + c div 64), of_nat (0x80 + c mod 64)]
      else if 0xD800 \<le> c \<and> c \<le> 0xDFFF then None
      else if c < 0x10000 then
        Some [of_nat (0xE0 + c div 4096), of_nat (0x80 + c div 64 mod 64),
              of_nat (0x80 + c mod 64)]
      else if c < 0x110000 then
        Some [of_nat (0xF0 + c div 262144), of_nat (0x80 + c div 4096 mod 64),
              of_nat (0x80 + c div 64 mod 64), of_nat (0x80 + c mod 64)]
      else None)"

fun encode_utf8 :: "ustr \<Rightarrow> py_error + byte list" where
  "encode_utf8 [] = Inr []"
| "encode_utf8 (c # cs) =
     (case encode_char c of
        None \<Rightarrow> Inl UnicodeEncodeError
      | Some bs \<Rightarrow> (case encode_utf8 cs of Inl e \<Rightarrow> Inl e | Inr rest \<Rightarrow> Inr (bs @ rest)))"

text \<open>\<open>hexdigest()\<close>: two lower-case hexadecimal digits per byte of the digest.\<close>

definition hex_digit :: "nat \<Rightarrow> char" where
  "hex_digit n = ''0123456789abcdef'' ! n"

definition hex_byte :: "byte \<Rightarrow> string" where
  "hex_byte b = [hex_digit (unat b div 16), hex_digit (unat b mod 16)]"

definition hexdigest :: "byte list \<Rightarrow> string" where
  "hexdigest digest = concat (map hex_byte digest)"

text \<open>
  \<open>int(s, 16)\<close> on a string of hexadecimal digits; the empty string and a character
  that is not a digit raise \<open>ValueError\<close>.
\<close>

definition hex_value :: "char \<Rightarrow> nat option" where
  "hex_value ch =
     (let n = (of_char ch :: nat)
      in if 48 \<le> n \<and> n \<le> 57 then Some (n - 48)
         else if 97 \<le> n \<and> n \<le> 102 then Some (n - 87)
         else if 65 \<le> n \<and> n \<le> 70 then Some (n - 55)
         else None)"

fun parse_hex :: "nat \<Rightarrow> string \<Rightarrow> nat option" where
  "parse_hex acc [] = Some acc"
| "parse_hex acc (ch # s) =
     (case hex_value ch of None \<Rightarrow> None | Some d \<Rightarrow> parse_hex (acc * 16 + d) s)"

definition int_base16 :: "string \<Rightarrow> py_error + nat" where
  "int_base16 s =
     (if s = [] then Inl ValueError
      else case parse_hex 0 s of None \<Rightarrow> Inl ValueError | Some n \<Rightarrow> Inr n)"

text \<open>
  The router. \<open>hashlib.md5(data).digest()\<close> is the parameter \<open>md5\<close>, from the bytes hashed
  to the 16 bytes of the digest; \<open>db_count\<close> is the attribute \<open>self.db_count\<close>.
\<close>

definition get_db_index_for_file ::
  "(byte list \<Rightarrow> byte list) \<Rightarrow> nat \<Rightarrow> ustr \<Rightarrow> py_error + nat" where
  "get_db_index_for_file md5 db_count path =
     (case encode_utf8 path of
        Inl e \<Rightarrow> Inl e
      | Inr data \<Rightarrow>
          (case int_base16 (hexdigest (md5 data)) of
             Inl e \<Rightarrow> Inl e
           | Inr hash_value \<Rightarrow>
               if db_count = 0 then Inl ZeroDivisionError
               else Inr (hash_value mod db_count)))"

text \<open>The number that a sequence of bytes denotes, most significant byte first.\<close>

definition be_value :: "byte list \<Rightarrow> nat" where
  "be_value bs = foldl (\<lambda>acc b. acc * 256 + unat b) 0 bs"

section \<open>Durable upsert: \<open>_add_to_complete_layer\<close> and \<open>add_document_to_db\<close>\<close>

subsection \<open>The row that is written\<close>

text \<open>
  The arguments of the upsert: the path, the extracted text, the entries \<open>file_name\<close>,
  \<open>file_type\<close> and \<open>size\<close> of \<open>base_data\<close> (\<open>file_data\<close> in the modular engine), the
  content hash, and \<open>os.path.basename(file_path)\<close>, which the code falls back to when
  the file name is empty.
\<close>

record upsert_input =
  u_file_path :: ustr
  u_content :: ustr
  u_file_name :: ustr
  u_file_type :: ustr
  u_size :: nat
  u_file_hash :: string
  u_basename :: ustr

text \<open>
  A row of the table \<open>documents\<close>, as the \<open>INSERT\<close> and \<open>UPDATE\<close> statements bind it
  (the two time stamps are left out). The same values go to the full-text table.
\<close>

record doc_row =
  d_file_path :: ustr
  d_file_name :: ustr
  d_content :: ustr
  d_file_type :: ustr
  d_size :: nat
  d_hash :: string

text \<open>\<open>s.replace('\x00', '')\<close>\<close>

definition remove_nul :: "ustr \<Rightarrow> ustr" where
  "remove_nul s = filter (\<lambda>c. c \<noteq> 0) s"

text \<open>
  The data preparation, the same in both engines and for the insert and the update
  statements: \<open>safe_content\<close>, \<open>safe_file_name\<close> and \<open>safe_file_type\<close>.
\<close>

definition safe_row :: "upsert_input \<Rightarrow> doc_row" where
  "safe_row x =
     (let safe_content = (if u_content x \<noteq> [] then take 2000000 (u_content x) else []);
          safe_file_name = (if u_file_name x \<noteq> [] then take 500 (u_file_name x) else u_basename x);
          safe_file_type = (if u_file_type x \<noteq> [] then take 100 (u_file_type x) else ascii ''unknown'')
      in \<lparr>d_file_path = u_file_path x,
          d_file_name = remove_nul safe_file_name,
          d_content = remove_nul safe_content,
          d_file_type = safe_file_type,
          d_size = u_size x,
          d_hash = u_file_hash x\<rparr>)"

subsection \<open>The answers of the shard store\<close>

text \<open>
  The shard store is SQLite, outside the repository. What it does during one attempt is
  a parameter of the model: an exception of \<open>sqlite3\<close> carries its message in lower case
  (\<open>str(e).lower()\<close>), a transaction either commits or raises.
\<close>

datatype db_error = OperationalError string | IntegrityError string | OtherError

datatype write_outcome = Committed | Raises db_error

text \<open>
  After a failed insert the monolithic engine selects the row by path again: the select
  raises, finds nothing, or finds the row and runs an update transaction.
\<close>

datatype reselect = ReselectRaises db_error | NoDuplicate | Duplicate nat write_outcome

datatype insert_outcome = InsertCommitted | InsertFails db_error reselect

text \<open>
  One attempt: connecting or the first select raises; or the select finds the row (with
  its id) and the update transaction runs; or it finds none and the insert transaction
  runs.
\<close>

datatype attempt_body =
    ConnectRaises db_error
  | Existing nat write_outcome
  | Absent insert_outcome

record attempt_env =
  db_file_exists :: bool
  body :: attempt_body
  repair_ok :: bool

datatype db_event =
    AttemptStarted nat
  | InsertRow doc_row
  | UpdateRow doc_row
  | Raised db_error
  | Commit
  | Rollback
  | RepairDeleteByPath ustr
  | RepairFailed
  | RetrySleep
  | LogError

datatype loop_step = Continue | Break

definition max_retries :: nat where
  "max_retries = 8"

text \<open>\<open>needle in haystack\<close> for strings\<close>

definition contains :: "'a list \<Rightarrow> 'a list \<Rightarrow> bool" where
  "contains haystack needle = sublist needle haystack"

subsection \<open>Monolithic engine\<close>

text \<open>
  The body of the \<open>try\<close> block of one attempt, with the inner handlers of
  \<open>sqlite3.IntegrityError\<close>: the update path rolls back and raises again; the insert
  path rolls back, selects the row by path and, when it is there, retries as an update.
  The result is the exception that leaves the block, if any.
\<close>

definition run_attempt :: "upsert_input \<Rightarrow> attempt_body \<Rightarrow> db_event list \<times> db_error option" where
  "run_attempt x b =
     (case b of
        ConnectRaises e \<Rightarrow> ([Raised e], Some e)
      | Existing row_id Committed \<Rightarrow> ([UpdateRow (safe_row x), Commit], None)
      | Existing row_id (Raises e) \<Rightarrow>
          (case e of
             IntegrityError msg \<Rightarrow> ([UpdateRow (safe_row x), Raised e, Rollback, LogError], Some e)
           | _ \<Rightarrow> ([UpdateRow (safe_row x), Raised e], Some e))
      | Absent InsertCommitted \<Rightarrow> ([InsertRow (safe_row x), Commit], None)
      | Absent (InsertFails e again) \<Rightarrow>
          (case e of
             IntegrityError msg \<Rightarrow>
               (case again of
                  ReselectRaises e' \<Rightarrow>
                    ([InsertRow (safe_row x), Raised e, Rollback, LogError, Raised e'], Some e')
                | NoDuplicate \<Rightarrow> ([InsertRow (safe_row x), Raised e, Rollback, LogError], None)
                | Duplicate row_id Committed \<Rightarrow>
                    ([InsertRow (safe_row x), Raised e, Rollback, LogError,
                      UpdateRow (safe_row x), Commit], None)
                | Duplicate row_id (Raises e') \<Rightarrow>
                    ([InsertRow (safe_row x), Raised e, Rollback, LogError,
                      UpdateRow (safe_row x), Raised e'], Some e'))
           | _ \<Rightarrow> ([InsertRow (safe_row x), Raised e], Some e)))"

text \<open>
  The three \<open>except\<close> clauses of the attempt loop. An operational error whose message
  names a busy, locked or unreadable database is retried after a sleep while attempts
  remain. An integrity error is rolled back; when its message contains
  \<open>constraint failed\<close> the rows of the path are deleted from both tables and the loop
  goes on to the next attempt, if one is left.
\<close>

definition handle_error ::
  "upsert_input \<Rightarrow> nat \<Rightarrow> bool \<Rightarrow> db_error \<Rightarrow> db_event list \<times> loop_step" where
  "handle_error x attempt repair_succeeds e =
     (case e of
        OperationalError error_msg \<Rightarrow>
          if (contains error_msg ''unable to open database file'' \<or>
              contains error_msg ''database is locked'' \<or>
              contains error_msg ''database is busy'' \<or>
              contains error_msg ''disk i/o error'') \<and> attempt < max_retries - 1
          then ([LogError, RetrySleep], Continue)
          else ([LogError, LogError], Break)
      | IntegrityError error_msg \<Rightarrow>
          if contains error_msg ''constraint failed'' then
            if repair_succeeds then
              ([LogError, Rollback, RepairDeleteByPath (u_file_path x)],
               if attempt < max_retries - 1 then Continue else Break)
            else ([LogError, Rollback, RepairFailed, LogError], Break)
          else ([LogError, Rollback], Break)
      | OtherError \<Rightarrow> ([LogError], Break))"

text \<open>
  \<open>for attempt in range(max_retries)\<close>: the first argument counts the attempts that
  are left, the second is \<open>attempt\<close>.
\<close>

fun attempts :: "nat \<Rightarrow> nat \<Rightarrow> (nat \<Rightarrow> attempt_env) \<Rightarrow> upsert_input \<Rightarrow> db_event list" where
  "attempts 0 attempt env x = []"
| "attempts (Suc left) attempt env x =
     (if \<not> db_file_exists (env attempt) then [AttemptStarted attempt, LogError]
      else
        case run_attempt x (body (env attempt)) of
          (evs, None) \<Rightarrow> AttemptStarted attempt # evs
        | (evs, Some e) \<Rightarrow>
            (case handle_error x attempt (repair_ok (env attempt)) e of
               (handler_evs, Continue) \<Rightarrow>
                 AttemptStarted attempt # evs @ handler_evs @ attempts left (attempt + 1) env x
             | (handler_evs, Break) \<Rightarrow> AttemptStarted attempt # evs @ handler_evs))"

text \<open>
  \<open>_add_to_complete_layer\<close>. It has no \<open>return\<close> with a value: the result of the model
  is the log of what it did. \<open>db_ready\<close> says that the shard file exists (or could be
  created) and is readable and writable; otherwise the function returns before the loop.
\<close>

definition add_to_complete_layer ::
  "bool \<Rightarrow> (nat \<Rightarrow> attempt_env) \<Rightarrow> upsert_input \<Rightarrow> db_event list" where
  "add_to_complete_layer db_ready env x =
     (if \<not> db_ready then [LogError] else attempts max_retries 0 env x)"

subsection \<open>Modular engine\<close>

text \<open>
  One attempt of \<open>DatabaseManager.add_document_to_db\<close>: there is no handler inside the
  \<open>try\<close> block, so an exception of a transaction leaves it as it is.
\<close>

definition db_run_attempt :: "upsert_input \<Rightarrow> attempt_body \<Rightarrow> db_event list \<times> db_error option" where
  "db_run_attempt x b =
     (case b of
        ConnectRaises e \<Rightarrow> ([Raised e], Some e)
      | Existing row_id Committed \<Rightarrow> ([UpdateRow (safe_row x), Commit], None)
      | Existing row_id (Raises e) \<Rightarrow> ([UpdateRow (safe_row x), Raised e], Some e)
      | Absent InsertCommitted \<Rightarrow> ([InsertRow (safe_row x), Commit], None)
      | Absent (InsertFails e again) \<Rightarrow> ([InsertRow (safe_row x), Raised e], Some e))"

fun db_attempts ::
  "nat \<Rightarrow> nat \<Rightarrow> (nat \<Rightarrow> attempt_env) \<Rightarrow> upsert_input \<Rightarrow> bool \<times> db_event list" where
  "db_attempts 0 attempt env x = (False, [])"
| "db_attempts (Suc left) attempt env x =
     (case db_run_attempt x (body (env attempt)) of
        (evs, None) \<Rightarrow> (True, AttemptStarted attempt # evs)
      | (evs, Some e) \<Rightarrow>
          (case e of
             OperationalError error_msg \<Rightarrow>
               if (contains error_msg ''database is locked'' \<or>
                   contains error_msg ''database is busy'') \<and> attempt < max_retries - 1
               then (case db_attempts left (attempt + 1) env x of
                       (ok, rest) \<Rightarrow> (ok, AttemptStarted attempt # evs @ [RetrySleep] @ rest))
               else (False, AttemptStarted attempt # evs @ [LogError])
           | _ \<Rightarrow> (False, AttemptStarted attempt # evs @ [LogError])))"

definition add_document_to_db ::
  "(nat \<Rightarrow> attempt_env) \<Rightarrow> upsert_input \<Rightarrow> bool \<times> db_event list" where
  "add_document_to_db env x = db_attempts max_retries 0 env x"

text \<open>The rows that an upsert binds to an insert or an update statement.\<close>

fun written_row :: "db_event \<Rightarrow> doc_row option" where
  "written_row (InsertRow r) = Some r"
| "written_row (UpdateRow r) = Some r"
| "written_row _ = None"

definition rows_written :: "db_event list \<Rightarrow> doc_row list" where
  "rows_written evs = List.map_filter written_row evs"

text \<open>Two tests on the log: the start of an attempt, and a repair.\<close>

fun is_attempt :: "db_event \<Rightarrow> bool" where
  "is_attempt (AttemptStarted n) = True"
| "is_attempt _ = False"

fun is_repair :: "db_event \<Rightarrow> bool" where
  "is_repair (RepairDeleteByPath p) = True"
| "is_repair _ = False"

section \<open>Matcher: \<open>enhanced_search_match\<close>\<close>

text \<open>
  The five forms in which the matcher compares a string: the string itself, its
  lower-case form, the NFKC form of that, and the lower-case form with hiragana turned
  into katakana and with katakana turned into hiragana. The source builds the list
  \<open>text_variants\<close> for the text and, with the same statements, \<open>pattern_variants\<close> for
  each pattern.
\<close>

definition variants :: "(ustr \<Rightarrow> ustr) \<Rightarrow> (ustr \<Rightarrow> ustr) \<Rightarrow> ustr \<Rightarrow> ustr list" where
  "variants lower nfkc s =
     [s, lower s, nfkc (lower s), hiragana_to_katakana (lower s),
      katakana_to_hiragana (lower s)]"

text \<open>
  The body of the innermost loop for one text variant and one pattern variant, where
  \<open>q0\<close> is \<open>query_patterns[0]\<close>: \<open>True\<close> when the body executes \<open>return True\<close>.
\<close>

definition variant_matches :: "ustr \<Rightarrow> ustr \<Rightarrow> ustr \<Rightarrow> bool" where
  "variant_matches q0 text_variant pattern_variant =
     (if length q0 \<ge> 3 \<and> length (strip pattern_variant) < 3 then False
      else if length q0 = 2 \<and> length (strip pattern_variant) < 2 then False
      else if length q0 = 1 \<and> length (strip pattern_variant) < 1 then False
      else if pattern_variant = text_variant then True
      else if length q0 \<ge> 4 then pattern_variant = q0 \<and> contains text_variant pattern_variant
      else length pattern_variant \<ge> 2 \<and> contains text_variant pattern_variant)"

text \<open>
  The three nested loops return \<open>True\<close> at the first pair for which the body does, and
  \<open>False\<close> after the last.
\<close>

definition enhanced_search_match ::
  "(ustr \<Rightarrow> ustr) \<Rightarrow> (ustr \<Rightarrow> ustr) \<Rightarrow> ustr \<Rightarrow> ustr list \<Rightarrow> bool" where
  "enhanced_search_match lower nfkc text query_patterns =
     (case query_patterns of
        [] \<Rightarrow> False
      | q0 # _ \<Rightarrow>
          if text = [] then False
          else list_ex (\<lambda>pattern.
                 list_ex (\<lambda>text_variant.
                   list_ex (\<lambda>pattern_variant. variant_matches q0 text_variant pattern_variant)
                     (variants lower nfkc pattern))
                   (variants lower nfkc text))
                 query_patterns)"

section \<open>Facts about the descending stable sort\<close>

lemma set_sort_desc_key [simp]: "set (sort_desc_key f xs) = set xs"
  by (simp add: sort_desc_key_def)

lemma length_sort_desc_key [simp]: "length (sort_desc_key f xs) = length xs"
  by (simp add: sort_desc_key_def)

lemma distinct_sort_desc_key [simp]: "distinct (sort_desc_key f xs) = distinct xs"
  by (simp add: sort_desc_key_def)

lemma sorted_wrt_sort_desc_key:
  "sorted_wrt (\<lambda>a b. f b \<le> f a) (sort_desc_key f xs)"
proof -
  have "sorted (map f (sort_key f (rev xs)))"
    by simp
  then have "sorted_wrt (\<lambda>a b. f a \<le> f b) (sort_key f (rev xs))"
    by (simp add: sorted_map)
  then show ?thesis
    by (simp add: sort_desc_key_def sorted_wrt_rev)
qed

section \<open>Facts about the pattern list\<close>

lemma unique_patterns_fold_inv:
  "distinct acc \<Longrightarrow> acc \<noteq> [] \<Longrightarrow> hd acc = text \<Longrightarrow>
   (let r = fold (\<lambda>p acc. if p \<notin> set acc \<and> p \<noteq> text then acc @ [p] else acc) ps acc
    in distinct r \<and> r \<noteq> [] \<and> hd r = text)"
  by (induction ps arbitrary: acc) (auto simp: Let_def)

lemma unique_patterns_props:
  "distinct (unique_patterns text ps) \<and> unique_patterns text ps \<noteq> [] \<and>
   hd (unique_patterns text ps) = text"
  using unique_patterns_fold_inv [of "[text]" "text" ps]
  by (simp add: unique_patterns_def Let_def)

text \<open>
  C7. For every non-empty query \<open>q\<close> the pattern list of \<open>normalize_search_text_ultra\<close>
  contains \<open>q\<close>, has \<open>q\<close> as its first element, has no duplicates, and its remaining
  elements are in order of non-increasing length. The list is a function of the query
  (and of the two library functions) alone: the model reads and writes no state.
\<close>

theorem patterns_original_first_rest_by_length:
  assumes "q \<noteq> []"
  shows "q \<in> set (patterns lower nfkc q) \<and>
         hd (patterns lower nfkc q) = q \<and>
         distinct (patterns lower nfkc q) \<and>
         sorted_wrt (\<lambda>a b. length b \<le> length a) (tl (patterns lower nfkc q))"
proof -
  define uniq where "uniq = unique_patterns q (raw_patterns lower nfkc q)"
  have u: "distinct uniq" "uniq \<noteq> []" "hd uniq = q"
    using unique_patterns_props [of q "raw_patterns lower nfkc q"] by (simp_all add: uniq_def)
  then obtain rest where uniq_eq: "uniq = q # rest"
    by (cases uniq) auto
  have ps: "patterns lower nfkc q = q # sort_desc_key length rest"
    using assms uniq_eq
    by (simp add: patterns_def normalize_search_text_ultra_def Let_def uniq_def [symmetric])
  have "distinct (q # sort_desc_key length rest)"
    using u(1) uniq_eq by simp
  moreover have "sorted_wrt (\<lambda>a b. length b \<le> length a) (sort_desc_key length rest)"
    by (rule sorted_wrt_sort_desc_key)
  ultimately show ?thesis
    by (simp add: ps)
qed

theorem patterns_original_first_rest_by_length_witness:
  "[0x41, 0x62, 0x20, 0x63] \<noteq> ([] :: ustr) \<and>
   patterns ascii_lower nfkc_sample [0x41, 0x62, 0x20, 0x63] =
     [[0x41, 0x62, 0x20, 0x63], [0xFF21, 0xFF42, 0x20, 0xFF43], [0x61, 0x62, 0x20, 0x63],
      [0x41, 0x62], [0x62, 0x20], [0x20, 0x63], [0x41], [0x62], [0x63]] \<and>
   hd (patterns ascii_lower nfkc_sample [0x41, 0x62, 0x20, 0x63]) = [0x41, 0x62, 0x20, 0x63] \<and>
   sorted_wrt (\<lambda>a b. length b \<le> length a)
     (tl (patterns ascii_lower nfkc_sample [0x41, 0x62, 0x20, 0x63]))"
proof -
  let ?q = "[0x41, 0x62, 0x20, 0x63] :: ustr"
  have ne: "?q \<noteq> []"
    by simp
  have f: "to_full_width ?q = [0xFF21, 0xFF42, 0x20, 0xFF43]"
    by (simp add: to_full_width_def)
  have l: "ascii_lower ?q = [0x61, 0x62, 0x20, 0x63]"
    by (simp add: ascii_lower_def)
  have n: "nfkc_sample ?q = ?q" "nfkc_sample [0x41, 0x62] = [0x41, 0x62]" "nfkc_sample [0x63] = [0x63]"
    by (simp_all add: nfkc_sample_def)
  have k: "hiragana_to_katakana [0x61, 0x62, 0x20, 0x63] = [0x61, 0x62, 0x20, 0x63]"
          "katakana_to_hiragana [0x61, 0x62, 0x20, 0x63] = [0x61, 0x62, 0x20, 0x63]"
    by (simp_all add: hiragana_to_katakana_def katakana_to_hiragana_def)
  have s: "split_ws ?q = [[0x41, 0x62], [0x63]]"
    by (simp add: split_ws_def is_space_def)
  have c: "add_chars ?q [?q, [0xFF21, 0xFF42, 0x20, 0xFF43], [0x61, 0x62, 0x20, 0x63]] =
             [?q, [0xFF21, 0xFF42, 0x20, 0xFF43], [0x61, 0x62, 0x20, 0x63], [0x41], [0x62], [0x63]]"
    by (simp add: add_chars_def strip_def is_space_def)
  have b: "add_bigrams ?q
             [?q, [0xFF21, 0xFF42, 0x20, 0xFF43], [0x61, 0x62, 0x20, 0x63], [0x41], [0x62], [0x63]] =
             [?q, [0xFF21, 0xFF42, 0x20, 0xFF43], [0x61, 0x62, 0x20, 0x63], [0x41], [0x62], [0x63],
              [0x41, 0x62], [0x62, 0x20], [0x20, 0x63]]"
    by (simp add: add_bigrams_def append_new_def)
  have raw: "raw_patterns ascii_lower nfkc_sample ?q =
             [?q, [0xFF21, 0xFF42, 0x20, 0xFF43], [0x61, 0x62, 0x20, 0x63], [0x41], [0x62], [0x63],
              [0x41, 0x62], [0x62, 0x20], [0x20, 0x63]]"
    unfolding raw_patterns_def Let_def f l n k s
    by (simp add: append_if_differs_def c b add_words_def append_new_def n)
  have uniq: "unique_patterns ?q (raw_patterns ascii_lower nfkc_sample ?q) =
             [?q, [0xFF21, 0xFF42, 0x20, 0xFF43], [0x61, 0x62, 0x20, 0x63], [0x41], [0x62], [0x63],
              [0x41, 0x62], [0x62, 0x20], [0x20, 0x63]]"
    unfolding raw by (simp add: unique_patterns_def)
  have val: "patterns ascii_lower nfkc_sample ?q =
     [?q, [0xFF21, 0xFF42, 0x20, 0xFF43], [0x61, 0x62, 0x20, 0x63],
      [0x41, 0x62], [0x62, 0x20], [0x20, 0x63], [0x41], [0x62], [0x63]]"
    unfolding patterns_def normalize_search_text_ultra_def Let_def uniq
    by (simp add: sort_desc_key_def)
  from patterns_original_first_rest_by_length [OF ne, of ascii_lower nfkc_sample] val
  show ?thesis
    by simp
qed

section \<open>Facts about the de-duplication\<close>

lemma dedup_loop_keep_first: "dedup_loop seen acc rs = acc @ keep_first seen rs"
  by (induction rs arbitrary: seen acc) auto

lemma keep_first_paths:
  "file_path ` set (keep_first seen rs) = file_path ` set rs - seen"
  by (induction rs arbitrary: seen) auto

lemma keep_first_subset: "set (keep_first seen rs) \<subseteq> set rs"
  by (induction rs arbitrary: seen) auto

lemma keep_first_distinct: "distinct (map file_path (keep_first seen rs))"
proof (induction rs arbitrary: seen)
  case Nil
  show ?case by simp
next
  case (Cons r rs)
  have "file_path r \<notin> file_path ` set (keep_first (insert (file_path r) seen) rs)"
    by (simp add: keep_first_paths)
  with Cons show ?case by simp
qed

lemma keep_first_sorted_wrt:
  "sorted_wrt R rs \<Longrightarrow> sorted_wrt R (keep_first seen rs)"
proof (induction rs arbitrary: seen)
  case Nil
  show ?case by simp
next
  case (Cons r rs)
  then show ?case
    using keep_first_subset [of "insert (file_path r) seen" rs] by auto
qed

lemma keep_first_dominates:
  assumes "sorted_wrt (\<lambda>a b. key b \<le> key a) rs"
    and "r \<in> set (keep_first seen rs)" and "r' \<in> set rs" and "file_path r' = file_path r"
  shows "(key r' :: 'k :: preorder) \<le> key r"
  using assms
proof (induction rs arbitrary: seen)
  case Nil
  then show ?case by simp
next
  case (Cons x xs)
  have sorted_xs: "sorted_wrt (\<lambda>a b. key b \<le> key a) xs"
    and x_first: "\<forall>y\<in>set xs. key y \<le> key x"
    using Cons.prems(1) by simp_all
  show ?case
  proof (cases "file_path x \<in> seen")
    case True
    then have in_rest: "r \<in> set (keep_first seen xs)"
      using Cons.prems(2) by simp
    then have "file_path r \<notin> seen"
      using keep_first_paths [of seen xs] by blast
    with True Cons.prems(4) have "r' \<noteq> x" by auto
    with Cons.prems(3) have "r' \<in> set xs" by simp
    with Cons.IH [OF sorted_xs in_rest] Cons.prems(4) show ?thesis by simp
  next
    case False
    then have "r = x \<or> r \<in> set (keep_first (insert (file_path x) seen) xs)"
      using Cons.prems(2) by simp
    then show ?thesis
    proof
      assume "r = x"
      with Cons.prems(3) x_first show ?thesis by auto
    next
      assume in_rest: "r \<in> set (keep_first (insert (file_path x) seen) xs)"
      then have "file_path r \<noteq> file_path x"
        using keep_first_paths [of "insert (file_path x) seen" xs] by blast
      with Cons.prems(4) have "r' \<noteq> x" by auto
      with Cons.prems(3) have "r' \<in> set xs" by simp
      with Cons.IH [OF sorted_xs in_rest] Cons.prems(4) show ?thesis by simp
    qed
  qed
qed

lemma deduplicate_and_rank_keep_first:
  "deduplicate_and_rank_optimized rs = keep_first {} (sort_desc_key get_priority rs)"
  by (cases rs) (simp_all add: deduplicate_and_rank_optimized_def dedup_loop_keep_first
      sort_desc_key_def)

section \<open>Facts about the tier priority\<close>

lemma split_char_hd: "(case split_char sep s of b # _ \<Rightarrow> b | [] \<Rightarrow> []) = takeWhile (\<lambda>c. c \<noteq> sep) s"
  by (induction s) (auto split: list.splits)

lemma layer_base_takeWhile: "layer_base l = takeWhile (\<lambda>c. c \<noteq> CHR ''_'') l"
proof (cases "CHR ''_'' \<in> set l")
  case True
  then show ?thesis by (simp add: layer_base_def split_char_hd)
next
  case False
  then have "\<forall>c\<in>set l. c \<noteq> CHR ''_''"
    by auto
  then have "takeWhile (\<lambda>c. c \<noteq> CHR ''_'') l = l"
    by (rule takeWhile_eq_all_conv [THEN iffD2])
  then show ?thesis
    using False unfolding layer_base_def by presburger
qed

lemma layer_priority_complete_db: "prefix ''complete_db_'' l \<Longrightarrow> layer_priority l = 1000"
  by (auto simp: prefix_def layer_priority_def layer_base_takeWhile priority_map_def)

lemma layer_priority_immediate: "layer_priority ''immediate'' = 100"
  by (simp add: layer_priority_def layer_base_takeWhile priority_map_def)

lemma layer_priority_hot: "layer_priority ''hot'' = 10"
  by (simp add: layer_priority_def layer_base_takeWhile priority_map_def)

lemma layer_priority_range: "layer_priority l \<in> {1000, 100, 10, 1}"
  by (simp add: layer_priority_def priority_map_def)

text \<open>
  C1. For every list of rows, \<open>_deduplicate_and_rank_optimized\<close> returns a list with at
  most one row per \<open>file_path\<close>, in which every path of the input still appears, sorted by
  tier priority descending and then by relevance score descending (the key
  \<open>(priority, score)\<close> in lexicographic order); the row kept for a path has the highest
  tier priority among the input rows of that path, and the highest score among those of
  that priority. On the labels the tiers write, the priority is 1000 for a label that
  begins with \<open>complete\<close>, 100 for \<open>immediate\<close> and 10 for \<open>hot\<close>; every other label gets
  one of 1000, 100, 10, 1, so never more than a complete row.
\<close>

theorem deduplicate_and_rank_unique_sorted_best:
  "distinct (map file_path (deduplicate_and_rank_optimized rs)) \<and>
   set (deduplicate_and_rank_optimized rs) \<subseteq> set rs \<and>
   file_path ` set (deduplicate_and_rank_optimized rs) = file_path ` set rs \<and>
   sorted_wrt (\<lambda>a b. get_priority b \<le> get_priority a) (deduplicate_and_rank_optimized rs) \<and>
   sorted_wrt (\<lambda>a b. layer_priority (layer b) < layer_priority (layer a) \<or>
        (layer_priority (layer b) = layer_priority (layer a) \<and>
         relevance_score b \<le> relevance_score a))
     (deduplicate_and_rank_optimized rs) \<and>
   (\<forall>r \<in> set (deduplicate_and_rank_optimized rs). \<forall>r' \<in> set rs.
      file_path r' = file_path r \<longrightarrow>
        layer_priority (layer r') \<le> layer_priority (layer r) \<and>
        (layer_priority (layer r') = layer_priority (layer r) \<longrightarrow>
           relevance_score r' \<le> relevance_score r)) \<and>
   (\<forall>l. tier_label l \<longrightarrow>
      layer_priority l =
        (if prefix ''complete'' l then 1000 else if l = ''immediate'' then 100 else 10)) \<and>
   (\<forall>l. layer_priority l \<le> 1000)"
proof -
  let ?out = "deduplicate_and_rank_optimized rs"
  let ?sorted = "sort_desc_key get_priority rs"
  have out: "?out = keep_first {} ?sorted"
    by (rule deduplicate_and_rank_keep_first)
  have srt: "sorted_wrt (\<lambda>a b. get_priority b \<le> get_priority a) ?sorted"
    by (rule sorted_wrt_sort_desc_key)
  have c1: "distinct (map file_path ?out)"
    unfolding out by (rule keep_first_distinct)
  have c2: "set ?out \<subseteq> set rs"
    unfolding out using keep_first_subset [of "{}" ?sorted] by simp
  have c3: "file_path ` set ?out = file_path ` set rs"
    unfolding out by (simp add: keep_first_paths)
  have c4: "sorted_wrt (\<lambda>a b. get_priority b \<le> get_priority a) ?out"
    unfolding out by (rule keep_first_sorted_wrt [OF srt])
  have key_le: "get_priority b \<le> get_priority a \<longleftrightarrow>
      layer_priority (layer b) < layer_priority (layer a) \<or>
      (layer_priority (layer b) = layer_priority (layer a) \<and>
       relevance_score b \<le> relevance_score a)" for a b
    by (auto simp: get_priority_def less_eq_prod_def)
  have c5: "sorted_wrt (\<lambda>a b. layer_priority (layer b) < layer_priority (layer a) \<or>
        (layer_priority (layer b) = layer_priority (layer a) \<and>
         relevance_score b \<le> relevance_score a)) ?out"
    using c4 by (simp add: key_le)
  have c6: "\<forall>r \<in> set ?out. \<forall>r' \<in> set rs. file_path r' = file_path r \<longrightarrow>
        layer_priority (layer r') \<le> layer_priority (layer r) \<and>
        (layer_priority (layer r') = layer_priority (layer r) \<longrightarrow>
           relevance_score r' \<le> relevance_score r)"
  proof (intro ballI impI)
    fix r r'
    assume r: "r \<in> set ?out" and r': "r' \<in> set rs" and same: "file_path r' = file_path r"
    have "get_priority r' \<le> get_priority r"
      using keep_first_dominates [OF srt, of r "{}" r'] r r' same
      by (simp add: out)
    then show "layer_priority (layer r') \<le> layer_priority (layer r) \<and>
        (layer_priority (layer r') = layer_priority (layer r) \<longrightarrow>
           relevance_score r' \<le> relevance_score r)"
      by (auto simp: key_le)
  qed
  have c7: "\<forall>l. tier_label l \<longrightarrow>
      layer_priority l =
        (if prefix ''complete'' l then 1000 else if l = ''immediate'' then 100 else 10)"
  proof (intro allI impI)
    fix l
    assume "tier_label l"
    then consider "l = ''immediate''" | "l = ''hot''" | "prefix ''complete_db_'' l"
      by (auto simp: tier_label_def)
    then show "layer_priority l =
        (if prefix ''complete'' l then 1000 else if l = ''immediate'' then 100 else 10)"
    proof cases
      case 1
      then show ?thesis by (simp add: layer_priority_immediate)
    next
      case 2
      then show ?thesis by (simp add: layer_priority_hot)
    next
      case 3
      then have "prefix ''complete'' l"
        by (auto simp: prefix_def)
      with 3 show ?thesis by (simp add: layer_priority_complete_db)
    qed
  qed
  have c8: "\<forall>l. layer_priority l \<le> 1000"
  proof
    fix l
    show "layer_priority l \<le> 1000"
      using layer_priority_range [of l] by auto
  qed
  from c1 c2 c3 c4 c5 c6 c7 c8 show ?thesis
    by blast
qed

theorem deduplicate_and_rank_unique_sorted_best_witness:
  "deduplicate_and_rank_optimized
     [\<lparr>file_path = [0x61], layer = ''hot'', relevance_score = 5\<rparr>,
      \<lparr>file_path = [0x61], layer = ''complete_db_0'', relevance_score = 1 / 2\<rparr>,
      \<lparr>file_path = [0x62], layer = ''immediate'', relevance_score = 1\<rparr>,
      \<lparr>file_path = [0x61], layer = ''immediate'', relevance_score = 9\<rparr>] =
     [\<lparr>file_path = [0x61], layer = ''complete_db_0'', relevance_score = 1 / 2\<rparr>,
      \<lparr>file_path = [0x62], layer = ''immediate'', relevance_score = 1\<rparr>] \<and>
   tier_label ''complete_db_0'' \<and> layer_priority ''complete_db_0'' = 1000 \<and>
   tier_label ''hot'' \<and> layer_priority ''hot'' = 10 \<and>
   layer_priority (layer \<lparr>file_path = [0x61], layer = ''immediate'', relevance_score = 9\<rparr>)
     \<le> layer_priority (layer \<lparr>file_path = [0x61 :: nat], layer = ''complete_db_0'', relevance_score = 1 / 2\<rparr>)"
proof -
  let ?r1 = "\<lparr>file_path = [0x61], layer = ''hot'', relevance_score = 5\<rparr>"
  let ?r2 = "\<lparr>file_path = [0x61], layer = ''complete_db_0'', relevance_score = 1 / 2\<rparr>"
  let ?r3 = "\<lparr>file_path = [0x62], layer = ''immediate'', relevance_score = 1\<rparr>"
  let ?r4 = "\<lparr>file_path = [0x61], layer = ''immediate'', relevance_score = 9\<rparr>"
  let ?rs = "[?r1, ?r2, ?r3, ?r4]"
  have lp: "layer_priority ''hot'' = 10" "layer_priority ''immediate'' = 100"
    "layer_priority ''complete_db_0'' = 1000"
    by (simp_all add: layer_priority_def layer_base_def priority_map_def)
  have keys: "get_priority ?r1 = (10, 5)" "get_priority ?r2 = (1000, 1 / 2)"
    "get_priority ?r3 = (100, 1)" "get_priority ?r4 = (100, 9)"
    by (simp_all add: get_priority_def lp)
  have srt: "sort_desc_key get_priority ?rs = [?r2, ?r4, ?r3, ?r1]"
    by (simp add: sort_desc_key_def keys less_eq_prod_def)
  have val: "deduplicate_and_rank_optimized ?rs = [?r2, ?r3]"
    unfolding deduplicate_and_rank_optimized_def srt by simp
  have tl: "tier_label ''complete_db_0''" "tier_label ''hot''"
    by (simp_all add: tier_label_def)
  have mem: "?r2 \<in> set (deduplicate_and_rank_optimized ?rs)" "?r4 \<in> set ?rs"
    "file_path ?r4 = file_path ?r2"
    unfolding val by simp_all
  from deduplicate_and_rank_unique_sorted_best [of ?rs] mem tl val
  show ?thesis
    by (simp add: lp)
qed

section \<open>Facts about whitespace\<close>

lemma strip_empty_iff: "strip s = [] \<longleftrightarrow> (\<forall>c\<in>set s. is_space c)"
proof
  assume "strip s = []"
  then have all: "\<forall>c\<in>set (dropWhile is_space s). is_space c"
    by (simp add: strip_def dropWhile_eq_Nil_conv)
  have "dropWhile is_space s = []"
  proof (rule ccontr)
    assume ne: "dropWhile is_space s \<noteq> []"
    then have "\<not> is_space (hd (dropWhile is_space s))"
      by (rule hd_dropWhile)
    moreover have "hd (dropWhile is_space s) \<in> set (dropWhile is_space s)"
      using ne by simp
    ultimately show False
      using all by blast
  qed
  then show "\<forall>c\<in>set s. is_space c"
    by (simp add: dropWhile_eq_Nil_conv)
next
  assume "\<forall>c\<in>set s. is_space c"
  then show "strip s = []"
    by (auto simp: strip_def dropWhile_eq_Nil_conv dest: set_dropWhileD)
qed

text \<open>
  C9. For a query that is empty or made of whitespace only, \<open>ultra_fast_search\<close> returns
  the empty list at once: no tier search is called (the log of calls is empty) and the
  statistics are unchanged. A query with a character that is not whitespace does consult
  the immediate tier first, with the stripped query.
\<close>

theorem ultra_fast_search_blank_query:
  "((\<forall>c\<in>set q. is_space c) \<longrightarrow>
      ultra_fast_search tiers stats q max_results = ([], stats, [])) \<and>
   (\<not> (\<forall>c\<in>set q. is_space c) \<longrightarrow>
      (\<exists>rest. snd (snd (ultra_fast_search tiers stats q max_results)) =
         ConsultImmediate (strip q) # rest))"
proof (intro conjI impI)
  assume "\<forall>c\<in>set q. is_space c"
  then show "ultra_fast_search tiers stats q max_results = ([], stats, [])"
    by (simp add: ultra_fast_search_def strip_empty_iff)
next
  assume nb: "\<not> (\<forall>c\<in>set q. is_space c)"
  then have "q \<noteq> []" "strip q \<noteq> []"
    by (auto simp: strip_empty_iff)
  then show "\<exists>rest. snd (snd (ultra_fast_search tiers stats q max_results)) =
      ConsultImmediate (strip q) # rest"
    by (auto simp: ultra_fast_search_def Let_def split: option.splits)
qed

theorem ultra_fast_search_blank_query_witness:
  "list_all is_space [0x20, 0x09, 0x3000] \<and>
   ultra_fast_search
     \<lparr>search_immediate_layer =
        (\<lambda>q. Some [\<lparr>file_path = [0x61], layer = ''immediate'', relevance_score = 1\<rparr>]),
      search_hot_layer = (\<lambda>q. Some []),
      search_complete_layer = (\<lambda>q n. None)\<rparr>
     \<lparr>search_count = 7, immediate_layer_hits = 3, hot_layer_hits = 2,
      complete_layer_hits = 1, error_count = 0\<rparr>
     [0x20, 0x09, 0x3000] 5500 =
   ([], \<lparr>search_count = 7, immediate_layer_hits = 3, hot_layer_hits = 2,
         complete_layer_hits = 1, error_count = 0\<rparr>, [])"
proof -
  have blank: "\<forall>c\<in>set [0x20, 0x09, 0x3000]. is_space c"
    by (simp add: is_space_def)
  from ultra_fast_search_blank_query [of "[0x20, 0x09, 0x3000]"
      "\<lparr>search_immediate_layer =
        (\<lambda>q. Some [\<lparr>file_path = [0x61], layer = ''immediate'', relevance_score = 1\<rparr>]),
      search_hot_layer = (\<lambda>q. Some []),
      search_complete_layer = (\<lambda>q n. None)\<rparr>"
      "\<lparr>search_count = 7, immediate_layer_hits = 3, hot_layer_hits = 2,
      complete_layer_hits = 1, error_count = 0\<rparr>" 5500] blank
  show ?thesis
    by (simp add: list_all_iff)
qed

section \<open>Facts about the size limits of the indexer\<close>

lemma index_over_limit_rejected:
  "st_size probe > 500 * MiB \<Longrightarrow> live_progressive_index_file st p probe = (False, st)"
  by (simp add: live_progressive_index_file_def)

lemma fold_immediate_del:
  "fold immediate_del ks s =
     s\<lparr>immediate_cache := fold dict_del ks (immediate_cache s),
       effects := effects s @ map ImmediateDel ks\<rparr>"
  by (induction ks arbitrary: s) (simp_all add: immediate_del_def)

lemma evict_immediate_frame:
  "hot_cache (evict_immediate s) = hot_cache s"
  "timers (evict_immediate s) = timers s"
  "indexed_files (evict_immediate s) = indexed_files s"
  "hot_cache_file (evict_immediate s) = hot_cache_file s"
  "shutdown_requested (evict_immediate s) = shutdown_requested s"
  by (simp_all add: evict_immediate_def Let_def fold_immediate_del)

lemma evict_immediate_effects:
  "\<exists>ks. effects (evict_immediate s) = effects s @ map ImmediateDel ks"
proof (cases "length (immediate_cache s) > max_immediate_cache s")
  case True
  then have "effects (evict_immediate s) = effects s @ map ImmediateDel
      (map fst (take (max 1 (max_immediate_cache s div 10))
         (sort_key (\<lambda>kv. ce_indexed_time (snd kv)) (immediate_cache s))))"
    by (simp add: evict_immediate_def Let_def fold_immediate_del)
  then show ?thesis ..
next
  case False
  then have "effects (evict_immediate s) = effects s @ map ImmediateDel []"
    by (simp add: evict_immediate_def)
  then show ?thesis ..
qed

lemma index_large_file_name_only:
  assumes "3 * MiB \<le> st_size probe" and "fst (live_progressive_index_file st p probe)"
  shows "\<exists>h. timers (snd (live_progressive_index_file st p probe)) =
           timers st @ [MoveToHotTimer p (base_name probe),
                        MoveToCompleteTimer p (base_name probe) h]"
    and "\<exists>ks. effects (snd (live_progressive_index_file st p probe)) =
           effects st @ ImmediateSet p # map ImmediateDel ks"
proof -
  show "\<exists>h. timers (snd (live_progressive_index_file st p probe)) =
           timers st @ [MoveToHotTimer p (base_name probe),
                        MoveToCompleteTimer p (base_name probe) h]"
    using assms
    by (auto simp: live_progressive_index_file_def Let_def start_timer_def
        evict_immediate_frame immediate_set_def split: if_splits)
  obtain ks where "effects (evict_immediate
        (immediate_set p
          \<lparr>ce_file_path = p, ce_file_name = base_name probe,
           ce_content_preview = Some (safe_truncate_utf8 (base_name probe) 500),
           ce_content = None, ce_file_type = suffix_lower probe, ce_size = st_size probe,
           ce_indexed_time = now probe, ce_layer = ''immediate'',
           ce_moved_from_immediate = None\<rparr> st)) =
      effects st @ ImmediateSet p # map ImmediateDel ks"
    using evict_immediate_effects [of "immediate_set p
          \<lparr>ce_file_path = p, ce_file_name = base_name probe,
           ce_content_preview = Some (safe_truncate_utf8 (base_name probe) 500),
           ce_content = None, ce_file_type = suffix_lower probe, ce_size = st_size probe,
           ce_indexed_time = now probe, ce_layer = ''immediate'',
           ce_moved_from_immediate = None\<rparr> st"]
    by (auto simp: immediate_set_def)
  then show "\<exists>ks. effects (snd (live_progressive_index_file st p probe)) =
           effects st @ ImmediateSet p # map ImmediateDel ks"
    using assms
    by (auto simp: live_progressive_index_file_def Let_def start_timer_def split: if_splits)
qed

text \<open>
  C6. A file of exactly 500 MiB (524288000 bytes) is not rejected: the test is
  \<open>file_size > 500 * 1024 * 1024\<close>, so the call returns \<open>True\<close>, stores an entry in the
  immediate tier and starts both promotion timers, with the base name as content and
  without calling the extractor.
\<close>

theorem index_file_of_exactly_500_MiB_is_indexed:
  "live_progressive_index_file (initial_engine 150000 1500000) [0x2F, 0x62, 0x2E, 0x70, 0x64, 0x66]
     \<lparr>base_name = [0x62, 0x2E, 0x70, 0x64, 0x66], suffix_lower = [0x2E, 0x70, 0x64, 0x66],
      file_exists = True, st_size = 524288000, now = 100,
      extracted_content = [0x78],
      content_md5 = (\<lambda>c. ''6f48c255b95233664489270fac54e807'')\<rparr> =
   (True,
    \<lparr>immediate_cache =
       [([0x2F, 0x62, 0x2E, 0x70, 0x64, 0x66],
         \<lparr>ce_file_path = [0x2F, 0x62, 0x2E, 0x70, 0x64, 0x66],
          ce_file_name = [0x62, 0x2E, 0x70, 0x64, 0x66],
          ce_content_preview = Some [0x62, 0x2E, 0x70, 0x64, 0x66],
          ce_content = None, ce_file_type = [0x2E, 0x70, 0x64, 0x66],
          ce_size = 524288000, ce_indexed_time = 100,
          ce_layer = ''immediate'', ce_moved_from_immediate = None\<rparr>)],
     hot_cache = [], max_immediate_cache = 150000, max_hot_cache = 1500000,
     indexing_cancelled = False, shutdown_requested = False, indexed_files = 1,
     last_save_time = 0,
     timers =
       [MoveToHotTimer [0x2F, 0x62, 0x2E, 0x70, 0x64, 0x66] [0x62, 0x2E, 0x70, 0x64, 0x66],
        MoveToCompleteTimer [0x2F, 0x62, 0x2E, 0x70, 0x64, 0x66] [0x62, 0x2E, 0x70, 0x64, 0x66]
          ''6f48c255b95233664489270fac54e807''],
     hot_cache_file = None,
     effects = [ImmediateSet [0x2F, 0x62, 0x2E, 0x70, 0x64, 0x66]]\<rparr>)"
proof -
  have asc: "ascii ''._'' = [0x2E, 0x5F]"
    "ascii ''.DS_Store'' = [0x2E, 0x44, 0x53, 0x5F, 0x53, 0x74, 0x6F, 0x72, 0x65]"
    "ascii ''Thumbs.db'' = [0x54, 0x68, 0x75, 0x6D, 0x62, 0x73, 0x2E, 0x64, 0x62]"
    by (simp_all add: ascii_def)
  show ?thesis
    by (simp add: live_progressive_index_file_def initial_engine_def asc MiB_def
        safe_truncate_utf8_def immediate_set_def dict_set_def dict_keys_def
        evict_immediate_def start_timer_def Let_def)
qed

section \<open>Facts about the final save\<close>

lemma shutdown_saves_hot_tier:
  "hot_cache st \<noteq> [] \<Longrightarrow> hot_cache_file (shutdown True st) = Some (hot_cache st)"
  by (simp add: shutdown_def save_caches_sync_def)

lemma cm_shutdown_never_writes:
  "hot_cache_file (cm_shutdown write_ok st) = hot_cache_file st \<and>
   effects (cm_shutdown write_ok st) = effects st"
  by (simp add: cm_shutdown_def cm_save_caches_def)

text \<open>
  C4. \<open>CacheManager.shutdown\<close> sets \<open>shutdown_requested\<close> and then calls \<open>save_caches\<close>,
  whose first statement returns when \<open>shutdown_requested\<close> is set. With one entry in the
  hot tier and no cache file on disk, the state after \<open>shutdown()\<close> still has no cache
  file and no write in its log: the entry is not persisted.
\<close>

theorem cm_shutdown_skips_final_save:
  "cm_shutdown True
     ((initial_engine 150000 1500000)
        \<lparr>hot_cache :=
           [([0x2F, 0x61],
             \<lparr>ce_file_path = [0x2F, 0x61], ce_file_name = [0x61],
              ce_content_preview = Some [0x78], ce_content = Some [0x78],
              ce_file_type = [], ce_size = 1, ce_indexed_time = 100,
              ce_layer = ''hot'', ce_moved_from_immediate = Some 101\<rparr>)],
         timers := [MoveToHotTimer [0x2F, 0x62] [0x79]]\<rparr>) =
   \<lparr>immediate_cache = [],
    hot_cache =
      [([0x2F, 0x61],
        \<lparr>ce_file_path = [0x2F, 0x61], ce_file_name = [0x61],
         ce_content_preview = Some [0x78], ce_content = Some [0x78],
         ce_file_type = [], ce_size = 1, ce_indexed_time = 100,
         ce_layer = ''hot'', ce_moved_from_immediate = Some 101\<rparr>)],
    max_immediate_cache = 150000, max_hot_cache = 1500000,
    indexing_cancelled = False, shutdown_requested = True, indexed_files = 0,
    last_save_time = 0, timers = [], hot_cache_file = None, effects = []\<rparr>"
  by (simp add: cm_shutdown_def cm_save_caches_def initial_engine_def)

section \<open>Facts about promotion between the cache tiers\<close>

lemma dict_keys_dict_del: "set (dict_keys (dict_del k d)) = set (dict_keys d) - {k}"
  by (auto simp: dict_keys_def dict_del_def)

lemma dict_keys_dict_set:
  "dict_keys (dict_set k v d) = (if k \<in> set (dict_keys d) then dict_keys d else dict_keys d @ [k])"
proof -
  have "map fst (map (\<lambda>kv. if fst kv = k then (k, v) else kv) d) = map fst d"
    by (induction d) auto
  then show ?thesis
    by (simp add: dict_keys_def dict_set_def)
qed

lemma map_of_None_iff_dict_keys: "map_of d k = None \<longleftrightarrow> k \<notin> set (dict_keys d)"
  by (simp add: dict_keys_def map_of_eq_None_iff)

lemma evict_hot_frame:
  "immediate_cache (evict_hot s) = immediate_cache s"
  "timers (evict_hot s) = timers s"
  "shutdown_requested (evict_hot s) = shutdown_requested s"
  "last_save_time (evict_hot s) = last_save_time s"
  by (simp_all add: evict_hot_def hot_del_def split: option.splits)

lemma evict_hot_effects:
  "effects (evict_hot s) = effects s \<or> (\<exists>k. effects (evict_hot s) = effects s @ [HotDel k])"
  by (simp add: evict_hot_def hot_del_def split: option.splits)

lemma promote_core:
  fixes st :: engine and p :: ustr and probe :: file_probe and c :: ustr
  defines "src \<equiv> (case map_of (immediate_cache st) p of
               Some e \<Rightarrow> (e, immediate_del p st)
             | None \<Rightarrow> (rebuilt_base_data p probe, st))"
  defines "s3 \<equiv> evict_hot (hot_set p (hot_data_of (fst src) p c (now probe)) (snd src))"
  shows "p \<notin> set (dict_keys (immediate_cache s3))"
    and "\<exists>ev. effects s3 =
           effects st @ (if p \<in> set (dict_keys (immediate_cache st)) then [ImmediateDel p] else [])
             @ [HotSet p] @ ev \<and> (ev = [] \<or> (\<exists>k. ev = [HotDel k]))"
proof -
  let ?s2 = "hot_set p (hot_data_of (fst src) p c (now probe)) (snd src)"
  have imm: "p \<notin> set (dict_keys (immediate_cache (snd src)))"
  proof (cases "map_of (immediate_cache st) p")
    case None
    then have "snd src = st"
      by (simp add: src_def)
    with None show ?thesis
      by (simp add: map_of_None_iff_dict_keys)
  next
    case (Some e)
    then have "snd src = immediate_del p st"
      by (simp add: src_def)
    then show ?thesis
      by (simp add: immediate_del_def dict_keys_dict_del)
  qed
  then show "p \<notin> set (dict_keys (immediate_cache s3))"
    by (simp add: s3_def evict_hot_frame hot_set_def)
  have eff1: "effects (snd src) =
      effects st @ (if p \<in> set (dict_keys (immediate_cache st)) then [ImmediateDel p] else [])"
  proof (cases "map_of (immediate_cache st) p")
    case None
    then have "snd src = st"
      by (simp add: src_def)
    with None show ?thesis
      by (simp add: map_of_None_iff_dict_keys)
  next
    case (Some e)
    then have in_keys: "p \<in> set (dict_keys (immediate_cache st))"
      using map_of_None_iff_dict_keys [of "immediate_cache st" p] by auto
    from Some have "snd src = immediate_del p st"
      by (simp add: src_def)
    with in_keys show ?thesis
      by (simp add: immediate_del_def)
  qed
  have eff2: "effects ?s2 = effects (snd src) @ [HotSet p]"
    by (simp add: hot_set_def)
  from evict_hot_effects [of ?s2]
  show "\<exists>ev. effects s3 =
           effects st @ (if p \<in> set (dict_keys (immediate_cache st)) then [ImmediateDel p] else [])
             @ [HotSet p] @ ev \<and> (ev = [] \<or> (\<exists>k. ev = [HotDel k]))"
  proof
    assume "effects (evict_hot ?s2) = effects ?s2"
    then have "effects s3 =
           effects st @ (if p \<in> set (dict_keys (immediate_cache st)) then [ImmediateDel p] else [])
             @ [HotSet p] @ []"
      by (simp add: s3_def eff1 eff2)
    then show ?thesis by blast
  next
    assume "\<exists>k. effects (evict_hot ?s2) = effects ?s2 @ [HotDel k]"
    then obtain k where "effects (evict_hot ?s2) = effects ?s2 @ [HotDel k]" ..
    then have "effects s3 =
           effects st @ (if p \<in> set (dict_keys (immediate_cache st)) then [ImmediateDel p] else [])
             @ [HotSet p] @ [HotDel k]"
      by (simp add: s3_def eff1 eff2)
    then show ?thesis by blast
  qed
qed

lemma move_to_hot_layer_core:
  "immediate_cache (move_to_hot_layer st p c probe) =
     immediate_cache (evict_hot (hot_set p (hot_data_of (fst (case map_of (immediate_cache st) p of
               Some e \<Rightarrow> (e, immediate_del p st)
             | None \<Rightarrow> (rebuilt_base_data p probe, st))) p c (now probe)) (snd (case map_of (immediate_cache st) p of
               Some e \<Rightarrow> (e, immediate_del p st)
             | None \<Rightarrow> (rebuilt_base_data p probe, st))))) \<and>
   effects (move_to_hot_layer st p c probe) =
     effects (evict_hot (hot_set p (hot_data_of (fst (case map_of (immediate_cache st) p of
               Some e \<Rightarrow> (e, immediate_del p st)
             | None \<Rightarrow> (rebuilt_base_data p probe, st))) p c (now probe)) (snd (case map_of (immediate_cache st) p of
               Some e \<Rightarrow> (e, immediate_del p st)
             | None \<Rightarrow> (rebuilt_base_data p probe, st)))))"
  by (simp add: move_to_hot_layer_def Let_def start_timer_def split_beta)

lemma cm_move_to_hot_layer_core:
  "\<not> shutdown_requested st \<Longrightarrow>
   cm_move_to_hot_layer st p c probe =
     evict_hot (hot_set p (hot_data_of (fst (case map_of (immediate_cache st) p of
               Some e \<Rightarrow> (e, immediate_del p st)
             | None \<Rightarrow> (rebuilt_base_data p probe, st))) p c (now probe)) (snd (case map_of (immediate_cache st) p of
               Some e \<Rightarrow> (e, immediate_del p st)
             | None \<Rightarrow> (rebuilt_base_data p probe, st))))"
  by (simp add: cm_move_to_hot_layer_def Let_def split_beta)

lemma index_keeps_hot_cache:
  "hot_cache (snd (live_progressive_index_file st p probe)) = hot_cache st"
  by (simp add: live_progressive_index_file_def Let_def start_timer_def evict_immediate_frame
      immediate_set_def split_beta)

lemma add_to_immediate_keeps_hot_cache:
  "hot_cache (add_to_immediate_cache st p c probe) = hot_cache st"
  by (simp add: add_to_immediate_cache_def Let_def start_timer_def evict_immediate_frame
      immediate_set_def)

text \<open>
  C3 (as the code has it). A promotion to the hot tier deletes the path from the
  immediate tier before it inserts it into the hot tier: in the log of effects the
  deletion, when the path was in the immediate tier, comes right before the insertion
  (which an eviction from the hot tier may follow), and after the promotion the path is
  not in the immediate tier. This holds for \<open>_move_to_hot_layer\<close> of both engines (the
  modular one does nothing once shutdown is requested). Indexing a path writes the
  immediate tier only and leaves the hot tier as it is, so a path that is indexed again
  while it sits in the hot tier is in both tiers until its next promotion.
\<close>

theorem promotion_deletes_source_before_insert:
  "p \<notin> set (dict_keys (immediate_cache (move_to_hot_layer st p c probe))) \<and>
   (\<exists>ev. effects (move_to_hot_layer st p c probe) =
      effects st @ (if p \<in> set (dict_keys (immediate_cache st)) then [ImmediateDel p] else [])
        @ [HotSet p] @ ev \<and> (ev = [] \<or> (\<exists>k. ev = [HotDel k]))) \<and>
   (\<not> shutdown_requested st \<longrightarrow>
      p \<notin> set (dict_keys (immediate_cache (cm_move_to_hot_layer st p c probe))) \<and>
      (\<exists>ev. effects (cm_move_to_hot_layer st p c probe) =
         effects st @ (if p \<in> set (dict_keys (immediate_cache st)) then [ImmediateDel p] else [])
           @ [HotSet p] @ ev \<and> (ev = [] \<or> (\<exists>k. ev = [HotDel k])))) \<and>
   hot_cache (snd (live_progressive_index_file st p probe)) = hot_cache st \<and>
   hot_cache (add_to_immediate_cache st p c probe) = hot_cache st"
proof -
  note core = promote_core [where p = p and st = st and probe = probe and c = c]
  have a: "p \<notin> set (dict_keys (immediate_cache (move_to_hot_layer st p c probe)))"
    using core(1) move_to_hot_layer_core [of st p c probe] by simp
  have b: "\<exists>ev. effects (move_to_hot_layer st p c probe) =
      effects st @ (if p \<in> set (dict_keys (immediate_cache st)) then [ImmediateDel p] else [])
        @ [HotSet p] @ ev \<and> (ev = [] \<or> (\<exists>k. ev = [HotDel k]))"
    using core(2) move_to_hot_layer_core [of st p c probe] by simp
  have c: "\<not> shutdown_requested st \<longrightarrow>
      p \<notin> set (dict_keys (immediate_cache (cm_move_to_hot_layer st p c probe))) \<and>
      (\<exists>ev. effects (cm_move_to_hot_layer st p c probe) =
         effects st @ (if p \<in> set (dict_keys (immediate_cache st)) then [ImmediateDel p] else [])
           @ [HotSet p] @ ev \<and> (ev = [] \<or> (\<exists>k. ev = [HotDel k])))"
    using core cm_move_to_hot_layer_core [of st p c probe] by simp
  from a b c index_keeps_hot_cache [of st p probe] add_to_immediate_keeps_hot_cache [of st p c probe]
  show ?thesis
    by blast
qed

theorem promotion_deletes_source_before_insert_witness:
  "[0x2F, 0x61] \<in> set (dict_keys (immediate_cache
      ((initial_engine 150000 1500000)
         \<lparr>immediate_cache :=
            [([0x2F, 0x61],
              \<lparr>ce_file_path = [0x2F, 0x61], ce_file_name = [0x61],
               ce_content_preview = Some [0x78], ce_content = None, ce_file_type = [],
               ce_size = 1, ce_indexed_time = 100, ce_layer = ''immediate'',
               ce_moved_from_immediate = None\<rparr>)]\<rparr>))) \<and>
   \<not> shutdown_requested
      ((initial_engine 150000 1500000)
         \<lparr>immediate_cache :=
            [([0x2F, 0x61],
              \<lparr>ce_file_path = [0x2F, 0x61], ce_file_name = [0x61],
               ce_content_preview = Some [0x78], ce_content = None, ce_file_type = [],
               ce_size = 1, ce_indexed_time = 100, ce_layer = ''immediate'',
               ce_moved_from_immediate = None\<rparr>)]\<rparr>) \<and>
   [0x2F, 0x61] \<notin> set (dict_keys (immediate_cache
      (cm_move_to_hot_layer
         ((initial_engine 150000 1500000)
            \<lparr>immediate_cache :=
               [([0x2F, 0x61],
                 \<lparr>ce_file_path = [0x2F, 0x61], ce_file_name = [0x61],
                  ce_content_preview = Some [0x78], ce_content = None, ce_file_type = [],
                  ce_size = 1, ce_indexed_time = 100, ce_layer = ''immediate'',
                  ce_moved_from_immediate = None\<rparr>)]\<rparr>)
         [0x2F, 0x61] [0x78]
         \<lparr>base_name = [0x61], suffix_lower = [], file_exists = True, st_size = 1, now = 101,
          extracted_content = [0x78],
          content_md5 = (\<lambda>c. ''9dd4e461268c8034f5c8564e155c67a6'')\<rparr>))) \<and>
   effects
      (move_to_hot_layer
         ((initial_engine 150000 1500000)
            \<lparr>immediate_cache :=
               [([0x2F, 0x61],
                 \<lparr>ce_file_path = [0x2F, 0x61], ce_file_name = [0x61],
                  ce_content_preview = Some [0x78], ce_content = None, ce_file_type = [],
                  ce_size = 1, ce_indexed_time = 100, ce_layer = ''immediate'',
                  ce_moved_from_immediate = None\<rparr>)]\<rparr>)
         [0x2F, 0x61] [0x78]
         \<lparr>base_name = [0x61], suffix_lower = [], file_exists = True, st_size = 1, now = 101,
          extracted_content = [0x78],
          content_md5 = (\<lambda>c. ''9dd4e461268c8034f5c8564e155c67a6'')\<rparr>) =
     [ImmediateDel [0x2F, 0x61], HotSet [0x2F, 0x61]]"
proof -
  let ?st = "(initial_engine 150000 1500000)
         \<lparr>immediate_cache :=
            [([0x2F, 0x61],
              \<lparr>ce_file_path = [0x2F, 0x61], ce_file_name = [0x61],
               ce_content_preview = Some [0x78], ce_content = None, ce_file_type = [],
               ce_size = 1, ce_indexed_time = 100, ce_layer = ''immediate'',
               ce_moved_from_immediate = None\<rparr>)]\<rparr>"
  let ?probe = "\<lparr>base_name = [0x61], suffix_lower = [], file_exists = True, st_size = 1,
          now = 101, extracted_content = [0x78],
          content_md5 = (\<lambda>c. ''9dd4e461268c8034f5c8564e155c67a6'')\<rparr>"
  have in_imm: "[0x2F, 0x61] \<in> set (dict_keys (immediate_cache ?st))"
    by (simp add: initial_engine_def dict_keys_def)
  have running: "\<not> shutdown_requested ?st"
    by (simp add: initial_engine_def)
  have eff: "effects (move_to_hot_layer ?st [0x2F, 0x61] [0x78] ?probe) =
      [ImmediateDel [0x2F, 0x61], HotSet [0x2F, 0x61]]"
    by (simp add: move_to_hot_layer_def initial_engine_def immediate_del_def hot_set_def
        dict_set_def dict_del_def dict_keys_def evict_hot_def start_timer_def hot_data_of_def
        Let_def)
  from promotion_deletes_source_before_insert [of "[0x2F, 0x61]" ?st "[0x78]" ?probe]
    in_imm running eff
  show ?thesis
    by blast
qed

text \<open>
  C3 as stated fails: index a path, promote it to the hot tier, index it again; the path
  is then in the immediate tier and in the hot tier.
\<close>

theorem reindex_leaves_path_in_both_tiers:
  "[0x2F, 0x61] \<in> set (dict_keys (immediate_cache
      (run_ops
         [Index [0x2F, 0x61]
            \<lparr>base_name = [0x61], suffix_lower = [], file_exists = True, st_size = 1, now = 100,
             extracted_content = [0x78], content_md5 = (\<lambda>c. ''9dd4e461268c8034f5c8564e155c67a6'')\<rparr>,
          MoveToHot [0x2F, 0x61] [0x78]
            \<lparr>base_name = [0x61], suffix_lower = [], file_exists = True, st_size = 1, now = 101,
             extracted_content = [0x78], content_md5 = (\<lambda>c. ''9dd4e461268c8034f5c8564e155c67a6'')\<rparr>,
          Index [0x2F, 0x61]
            \<lparr>base_name = [0x61], suffix_lower = [], file_exists = True, st_size = 1, now = 102,
             extracted_content = [0x78], content_md5 = (\<lambda>c. ''9dd4e461268c8034f5c8564e155c67a6'')\<rparr>]
         (initial_engine 150000 1500000)))) \<and>
   [0x2F, 0x61] \<in> set (dict_keys (hot_cache
      (run_ops
         [Index [0x2F, 0x61]
            \<lparr>base_name = [0x61], suffix_lower = [], file_exists = True, st_size = 1, now = 100,
             extracted_content = [0x78], content_md5 = (\<lambda>c. ''9dd4e461268c8034f5c8564e155c67a6'')\<rparr>,
          MoveToHot [0x2F, 0x61] [0x78]
            \<lparr>base_name = [0x61], suffix_lower = [], file_exists = True, st_size = 1, now = 101,
             extracted_content = [0x78], content_md5 = (\<lambda>c. ''9dd4e461268c8034f5c8564e155c67a6'')\<rparr>,
          Index [0x2F, 0x61]
            \<lparr>base_name = [0x61], suffix_lower = [], file_exists = True, st_size = 1, now = 102,
             extracted_content = [0x78], content_md5 = (\<lambda>c. ''9dd4e461268c8034f5c8564e155c67a6'')\<rparr>]
         (initial_engine 150000 1500000))))"
proof -
  have asc: "ascii ''._'' = [0x2E, 0x5F]"
    "ascii ''.DS_Store'' = [0x2E, 0x44, 0x53, 0x5F, 0x53, 0x74, 0x6F, 0x72, 0x65]"
    "ascii ''Thumbs.db'' = [0x54, 0x68, 0x75, 0x6D, 0x62, 0x73, 0x2E, 0x64, 0x62]"
    by (simp_all add: ascii_def)
  show ?thesis
    by (simp add: run_ops_def live_progressive_index_file_def move_to_hot_layer_def
        initial_engine_def asc MiB_def safe_truncate_utf8_def immediate_set_def immediate_del_def
        hot_set_def dict_set_def dict_del_def dict_keys_def evict_immediate_def evict_hot_def
        start_timer_def hot_data_of_def Let_def)
qed

section \<open>Facts about the shard router\<close>

lemma hex_value_hex_digit: "n < 16 \<Longrightarrow> hex_value (hex_digit n) = Some n"
proof -
  assume "n < 16"
  then have "n \<in> {0, 1, 2, 3, 4, 5, 6, 7, 8, 9, 10, 11, 12, 13, 14, 15}"
    by (simp only: insert_iff empty_iff) presburger
  then show ?thesis
    by (auto simp: hex_value_def hex_digit_def)
qed

lemma parse_hex_append:
  "parse_hex acc (s @ t) = (case parse_hex acc s of None \<Rightarrow> None | Some n \<Rightarrow> parse_hex n t)"
  by (induction s arbitrary: acc) (auto split: option.splits)

lemma parse_hex_hex_byte: "parse_hex acc (hex_byte b) = Some (acc * 256 + unat b)"
proof -
  have "unat b < 256"
    using unsigned_less [of b, where ?'a = nat] by simp
  then have lt: "unat b div 16 < 16"
    by simp
  have "(acc * 16 + unat b div 16) * 16 + unat b mod 16 = acc * 256 + unat b"
    by presburger
  then show ?thesis
    by (simp add: hex_byte_def hex_value_hex_digit lt)
qed

lemma parse_hex_hexdigest:
  "parse_hex acc (hexdigest ds) = Some (foldl (\<lambda>acc b. acc * 256 + unat b) acc ds)"
proof (induction ds arbitrary: acc)
  case Nil
  show ?case by (simp add: hexdigest_def)
next
  case (Cons b ds)
  have "hexdigest (b # ds) = hex_byte b @ hexdigest ds"
    by (simp add: hexdigest_def)
  then show ?case
    by (simp add: parse_hex_append parse_hex_hex_byte Cons.IH)
qed

lemma int_base16_hexdigest: "ds \<noteq> [] \<Longrightarrow> int_base16 (hexdigest ds) = Inr (be_value ds)"
proof -
  assume "ds \<noteq> []"
  then obtain b rest where "ds = b # rest"
    by (cases ds) auto
  then have "hexdigest ds \<noteq> []"
    by (simp add: hexdigest_def hex_byte_def)
  then show ?thesis
    by (simp add: int_base16_def parse_hex_hexdigest be_value_def)
qed

lemma be_value_bound: "be_value bs < 256 ^ length bs"
proof -
  have "acc < 256 ^ k \<Longrightarrow> foldl (\<lambda>acc b. acc * 256 + unat (b :: byte)) acc bs < 256 ^ (k + length bs)"
    for acc k
  proof (induction bs arbitrary: acc k)
    case Nil
    then show ?case by simp
  next
    case (Cons b bs)
    have "unat b < 256"
      using unsigned_less [of b, where ?'a = nat] by simp
    with Cons.prems have "acc * 256 + unat b < 256 ^ Suc k"
      by simp
    from Cons.IH [OF this] show ?case
      by simp
  qed
  from this [of 0 0] show ?thesis
    by (simp add: be_value_def)
qed

lemma encode_utf8_total:
  assumes "\<forall>c\<in>set p. c < 0x110000 \<and> \<not> (0xD800 \<le> c \<and> c \<le> 0xDFFF)"
  shows "\<exists>data. encode_utf8 p = Inr data"
  using assms
proof (induction p)
  case Nil
  show ?case by simp
next
  case (Cons c cs)
  then obtain tl_data where tl_data: "encode_utf8 cs = Inr tl_data"
    by auto
  from Cons.prems have "c < 0x110000" "\<not> (0xD800 \<le> c \<and> c \<le> 0xDFFF)"
    by simp_all
  then have "encode_char c \<noteq> None"
    by (simp add: encode_char_def)
  then obtain bs where "encode_char c = Some bs"
    by (cases "encode_char c") auto
  with tl_data show ?case
    by simp
qed

lemma encode_utf8_surrogate:
  assumes "\<exists>c\<in>set p. 0xD800 \<le> c \<and> c \<le> 0xDFFF"
  shows "encode_utf8 p = Inl UnicodeEncodeError"
  using assms
proof (induction p)
  case Nil
  then show ?case by simp
next
  case (Cons c cs)
  show ?case
  proof (cases "0xD800 \<le> c \<and> c \<le> 0xDFFF")
    case True
    then have "encode_char c = None"
      by (simp add: encode_char_def)
    then show ?thesis by simp
  next
    case False
    with Cons.prems have "\<exists>c\<in>set cs. 0xD800 \<le> c \<and> c \<le> 0xDFFF"
      by auto
    from Cons.IH [OF this] show ?thesis
      by (cases "encode_char c") simp_all
  qed
qed

text \<open>
  C2 (as the code has it). Let \<open>N > 0\<close> be the shard count. For a path that holds no
  surrogate code point the router returns the digest of the path's UTF-8 bytes, read as
  one number (most significant byte first, which is what \<open>int(hexdigest, 16)\<close>
  computes), modulo \<open>N\<close>; with the 16-byte digest of MD5 that number is below \<open>2 ^ 128\<close>,
  and the index lies in \<open>[0, N)\<close>. For a path that holds a surrogate code point
  \<open>file_path.encode('utf-8')\<close> raises \<open>UnicodeEncodeError\<close>, which no handler of the router
  catches: there is no index. The router is a function of the path, the shard count and
  the hash alone: it reads and writes no state. (The first hypothesis says that \<open>p\<close> is a
  Python string: no code point lies above \<open>0x10FFFF\<close>.)
\<close>

theorem shard_index_is_md5_mod_db_count:
  assumes "\<forall>c\<in>set p. c < 0x110000"
    and "\<forall>bs. length (md5 bs) = 16"
    and "0 < N"
  shows "(utf8_encodable p \<longrightarrow>
           (\<exists>data. encode_utf8 p = Inr data \<and>
              get_db_index_for_file md5 N p = Inr (be_value (md5 data) mod N) \<and>
              be_value (md5 data) < 2 ^ 128 \<and>
              be_value (md5 data) mod N < N)) \<and>
         (\<not> utf8_encodable p \<longrightarrow>
           encode_utf8 p = Inl UnicodeEncodeError \<and>
           get_db_index_for_file md5 N p = Inl UnicodeEncodeError)"
proof (intro conjI impI)
  assume ok: "utf8_encodable p"
  with assms(1) have all: "\<forall>c\<in>set p. c < 0x110000 \<and> \<not> (0xD800 \<le> c \<and> c \<le> 0xDFFF)"
    by (simp add: utf8_encodable_def)
  from encode_utf8_total [OF all] obtain data where enc: "encode_utf8 p = Inr data"
    by blast
  from assms(2) have len: "length (md5 data) = 16"
    by simp
  then have ne: "md5 data \<noteq> []"
    by auto
  have idx: "get_db_index_for_file md5 N p = Inr (be_value (md5 data) mod N)"
    using assms(3) by (simp add: get_db_index_for_file_def enc int_base16_hexdigest [OF ne])
  have "be_value (md5 data) < 256 ^ 16"
    using be_value_bound [of "md5 data"] len by simp
  then have bound: "be_value (md5 data) < 2 ^ 128"
    by simp
  from enc idx bound assms(3)
  show "\<exists>data. encode_utf8 p = Inr data \<and>
              get_db_index_for_file md5 N p = Inr (be_value (md5 data) mod N) \<and>
              be_value (md5 data) < 2 ^ 128 \<and>
              be_value (md5 data) mod N < N"
    by auto
next
  assume "\<not> utf8_encodable p"
  then have "\<exists>c\<in>set p. 0xD800 \<le> c \<and> c \<le> 0xDFFF"
    by (simp add: utf8_encodable_def)
  from encode_utf8_surrogate [OF this] show "encode_utf8 p = Inl UnicodeEncodeError" .
  then show "get_db_index_for_file md5 N p = Inl UnicodeEncodeError"
    by (simp add: get_db_index_for_file_def)
qed

text \<open>
  Two instances: the path \<open>/x/y/z.txt\<close>, with a hash function that answers the MD5
  digest of these ten bytes to every input, and 4 shards; and the path \<open>/d/\<close> followed
  by the surrogate U+DCE9, which is how \<open>os.walk\<close> reports a file whose name holds the
  byte \<open>0xE9\<close> outside any UTF-8 sequence.
\<close>

theorem shard_index_is_md5_mod_db_count_witness:
  "list_all (\<lambda>c. c < 0x110000)
     ([0x2F, 0x78, 0x2F, 0x79, 0x2F, 0x7A, 0x2E, 0x74, 0x78, 0x74] :: ustr) \<and>
   utf8_encodable [0x2F, 0x78, 0x2F, 0x79, 0x2F, 0x7A, 0x2E, 0x74, 0x78, 0x74] \<and>
   (\<forall>bs. length ((\<lambda>data. [0xB3, 0xA5, 0x64, 0xAD, 0xC7, 0xAF, 0x39, 0xFF, 0xFA, 0xD1, 0x06, 0x0E, 0xB1, 0xA0, 0xE9, 0x06]) bs :: byte list) = 16) \<and>
   (0 :: nat) < 4 \<and>
   get_db_index_for_file
     (\<lambda>data. [0xB3, 0xA5, 0x64, 0xAD, 0xC7, 0xAF, 0x39, 0xFF, 0xFA, 0xD1, 0x06, 0x0E, 0xB1, 0xA0, 0xE9, 0x06])
     4 [0x2F, 0x78, 0x2F, 0x79, 0x2F, 0x7A, 0x2E, 0x74, 0x78, 0x74] = Inr 2 \<and>
   list_all (\<lambda>c. c < 0x110000) ([0x2F, 0x64, 0x2F, 0xDCE9] :: ustr) \<and>
   \<not> utf8_encodable [0x2F, 0x64, 0x2F, 0xDCE9] \<and>
   get_db_index_for_file
     (\<lambda>data. [0xB3, 0xA5, 0x64, 0xAD, 0xC7, 0xAF, 0x39, 0xFF, 0xFA, 0xD1, 0x06, 0x0E, 0xB1, 0xA0, 0xE9, 0x06])
     4 [0x2F, 0x64, 0x2F, 0xDCE9] = Inl UnicodeEncodeError"
proof -
  let ?p = "[0x2F, 0x78, 0x2F, 0x79, 0x2F, 0x7A, 0x2E, 0x74, 0x78, 0x74] :: ustr"
  let ?s = "[0x2F, 0x64, 0x2F, 0xDCE9] :: ustr"
  let ?digest = "[0xB3, 0xA5, 0x64, 0xAD, 0xC7, 0xAF, 0x39, 0xFF, 0xFA, 0xD1, 0x06, 0x0E, 0xB1, 0xA0, 0xE9, 0x06] :: byte list"
  have p1: "\<forall>c\<in>set ?p. c < 0x110000"
    by simp
  have s1: "\<forall>c\<in>set ?s. c < 0x110000"
    by simp
  have p_ok: "utf8_encodable ?p"
    by (simp add: utf8_encodable_def)
  have s_bad: "\<not> utf8_encodable ?s"
    by (simp add: utf8_encodable_def)
  have h2: "\<forall>bs. length ((\<lambda>data. ?digest) bs) = 16"
    by simp
  have h3: "(0 :: nat) < 4"
    by simp
  have v: "be_value ?digest mod 4 = 2"
    by (simp add: be_value_def)
  from shard_index_is_md5_mod_db_count [OF p1 h2 h3, THEN conjunct1, THEN mp, OF p_ok]
  have "get_db_index_for_file (\<lambda>data. ?digest) 4 ?p = Inr (be_value ?digest mod 4)"
    by blast
  with v have good: "get_db_index_for_file (\<lambda>data. ?digest) 4 ?p = Inr 2"
    by simp
  from shard_index_is_md5_mod_db_count [OF s1 h2 h3, THEN conjunct2, THEN mp, OF s_bad]
  have bad: "get_db_index_for_file (\<lambda>data. ?digest) 4 ?s = Inl UnicodeEncodeError"
    by blast
  from p1 s1 p_ok s_bad h2 h3 good bad show ?thesis
    by (simp add: list_all_iff)
qed

text \<open>
  C2 as stated fails on a path that has no UTF-8 encoding. On POSIX \<open>os.walk\<close> gives the
  indexer such paths: a file name that is not valid UTF-8 is decoded with
  \<open>surrogateescape\<close>, each offending byte \<open>b\<close> becoming the code point \<open>0xDC00 + b\<close>. For
  the path \<open>/d/\<close> followed by U+DCE9 the router raises \<open>UnicodeEncodeError\<close>, whatever the
  hash function and the shard count are, and returns no index.
\<close>

theorem shard_index_raises_on_surrogate_path:
  "\<forall>md5 N. get_db_index_for_file md5 N [0x2F, 0x64, 0x2F, 0xDCE9] = Inl UnicodeEncodeError"
  by (simp add: get_db_index_for_file_def encode_char_def)

section \<open>Facts about the rows that the upsert writes\<close>

lemma set_rows_written:
  "set (rows_written evs) = {r. InsertRow r \<in> set evs \<or> UpdateRow r \<in> set evs}"
proof (induction evs)
  case Nil
  show ?case by (simp add: rows_written_def map_filter_simps)
next
  case (Cons ev evs)
  then show ?case
    by (cases ev) (auto simp: rows_written_def map_filter_simps)
qed

lemma run_attempt_rows:
  "ev \<in> set (fst (run_attempt x b)) \<Longrightarrow> written_row ev = Some r \<Longrightarrow> r = safe_row x"
  by (auto simp: run_attempt_def split: attempt_body.splits write_outcome.splits
      insert_outcome.splits db_error.splits reselect.splits)

lemma db_run_attempt_rows:
  "ev \<in> set (fst (db_run_attempt x b)) \<Longrightarrow> written_row ev = Some r \<Longrightarrow> r = safe_row x"
  by (auto simp: db_run_attempt_def split: attempt_body.splits write_outcome.splits
      insert_outcome.splits)

lemma handle_error_rows:
  "ev \<in> set (fst (handle_error x attempt ok e)) \<Longrightarrow> written_row ev = None"
  by (auto simp: handle_error_def split: db_error.splits if_splits)

lemma attempts_rows:
  "ev \<in> set (attempts left attempt env x) \<Longrightarrow> written_row ev = Some r \<Longrightarrow> r = safe_row x"
proof (induction left arbitrary: attempt)
  case 0
  then show ?case by simp
next
  case (Suc left)
  show ?case
  proof (cases "db_file_exists (env attempt)")
    case False
    with Suc.prems show ?thesis by auto
  next
    case True
    obtain evs res where ra: "run_attempt x (body (env attempt)) = (evs, res)"
      by (cases "run_attempt x (body (env attempt))")
    have from_evs: "ev \<in> set evs \<Longrightarrow> r = safe_row x"
      using run_attempt_rows [of ev x "body (env attempt)" r] ra Suc.prems(2) by simp
    show ?thesis
    proof (cases res)
      case None
      with Suc.prems True ra from_evs show ?thesis by auto
    next
      case (Some e)
      obtain hevs nxt where he: "handle_error x attempt (repair_ok (env attempt)) e = (hevs, nxt)"
        by (cases "handle_error x attempt (repair_ok (env attempt)) e")
      have not_h: "ev \<notin> set hevs"
        using handle_error_rows [of ev x attempt "repair_ok (env attempt)" e] he Suc.prems(2)
        by auto
      show ?thesis
      proof (cases nxt)
        case Continue
        with Suc.prems(1) True ra Some he not_h
        have "ev = AttemptStarted attempt \<or> ev \<in> set evs \<or>
            ev \<in> set (attempts left (attempt + 1) env x)"
          by auto
        with Suc.prems(2) from_evs Suc.IH [of "attempt + 1"] show ?thesis
          by auto
      next
        case Break
        with Suc.prems(1) True ra Some he not_h
        have "ev = AttemptStarted attempt \<or> ev \<in> set evs"
          by auto
        with Suc.prems(2) from_evs show ?thesis
          by auto
      qed
    qed
  qed
qed

lemma db_attempts_rows:
  "ev \<in> set (snd (db_attempts left attempt env x)) \<Longrightarrow> written_row ev = Some r \<Longrightarrow>
   r = safe_row x"
proof (induction left arbitrary: attempt)
  case 0
  then show ?case by simp
next
  case (Suc left)
  obtain evs res where ra: "db_run_attempt x (body (env attempt)) = (evs, res)"
    by (cases "db_run_attempt x (body (env attempt))")
  have from_evs: "ev \<in> set evs \<Longrightarrow> r = safe_row x"
    using db_run_attempt_rows [of ev x "body (env attempt)" r] ra Suc.prems(2) by simp
  obtain ok rest where rec: "db_attempts left (attempt + 1) env x = (ok, rest)"
    by (cases "db_attempts left (attempt + 1) env x")
  have from_rest: "ev \<in> set rest \<Longrightarrow> r = safe_row x"
    using Suc.IH [of "attempt + 1"] rec Suc.prems(2) by simp
  have "ev = AttemptStarted attempt \<or> ev \<in> set evs \<or> ev = RetrySleep \<or> ev = LogError \<or>
      ev \<in> set rest"
    using Suc.prems(1) ra rec
    by (auto split: option.splits db_error.splits if_splits)
  with Suc.prems(2) from_evs from_rest show ?case
    by auto
qed

lemma safe_row_bounds:
  "length (d_content (safe_row x)) \<le> 2000000"
  "0 \<notin> set (d_content (safe_row x))"
  "0 \<notin> set (d_file_name (safe_row x))"
  "length (d_file_type (safe_row x)) \<le> 100"
proof -
  have le: "length (remove_nul s) \<le> length s" for s
    by (simp add: remove_nul_def)
  show "length (d_content (safe_row x)) \<le> 2000000"
    using le [of "take 2000000 (u_content x)"]
    by (simp add: safe_row_def Let_def) (simp add: remove_nul_def)
  show "0 \<notin> set (d_content (safe_row x))"
    by (simp add: safe_row_def Let_def remove_nul_def)
  show "0 \<notin> set (d_file_name (safe_row x))"
    by (simp add: safe_row_def Let_def remove_nul_def)
  show "length (d_file_type (safe_row x)) \<le> 100"
    by (simp add: safe_row_def Let_def ascii_def)
qed

lemma safe_row_file_name:
  "u_file_name x \<noteq> [] \<longrightarrow> length (d_file_name (safe_row x)) \<le> 500"
  "u_file_name x = [] \<longrightarrow> d_file_name (safe_row x) = remove_nul (u_basename x)"
proof -
  have le: "length (remove_nul s) \<le> length s" for s
    by (simp add: remove_nul_def)
  show "u_file_name x \<noteq> [] \<longrightarrow> length (d_file_name (safe_row x)) \<le> 500"
    using le [of "take 500 (u_file_name x)"] by (auto simp: safe_row_def Let_def)
  show "u_file_name x = [] \<longrightarrow> d_file_name (safe_row x) = remove_nul (u_basename x)"
    by (simp add: safe_row_def Let_def)
qed

section \<open>Running the attempt loops\<close>

lemma attempts_success:
  "db_file_exists (env attempt) \<Longrightarrow> run_attempt x (body (env attempt)) = (evs, None) \<Longrightarrow>
   attempts (Suc left) attempt env x = AttemptStarted attempt # evs"
  by simp

lemma attempts_continue:
  "db_file_exists (env attempt) \<Longrightarrow> run_attempt x (body (env attempt)) = (evs, Some e) \<Longrightarrow>
   handle_error x attempt (repair_ok (env attempt)) e = (handler_evs, Continue) \<Longrightarrow>
   attempts (Suc left) attempt env x =
     AttemptStarted attempt # evs @ handler_evs @ attempts left (attempt + 1) env x"
  by simp

lemma attempts_break:
  "db_file_exists (env attempt) \<Longrightarrow> run_attempt x (body (env attempt)) = (evs, Some e) \<Longrightarrow>
   handle_error x attempt (repair_ok (env attempt)) e = (handler_evs, Break) \<Longrightarrow>
   attempts (Suc left) attempt env x = AttemptStarted attempt # evs @ handler_evs"
  by simp

lemma db_attempts_success:
  "db_run_attempt x (body (env attempt)) = (evs, None) \<Longrightarrow>
   db_attempts (Suc left) attempt env x = (True, AttemptStarted attempt # evs)"
  by simp

lemma max_retries_Suc: "max_retries = Suc 7"
  by (simp add: max_retries_def)

lemma attempts_success_pos:
  "0 < left \<Longrightarrow> db_file_exists (env attempt) \<Longrightarrow>
   run_attempt x (body (env attempt)) = (evs, None) \<Longrightarrow>
   attempts left attempt env x = AttemptStarted attempt # evs"
  by (cases left) simp_all

lemma attempts_continue_pos:
  "0 < left \<Longrightarrow> db_file_exists (env attempt) \<Longrightarrow>
   run_attempt x (body (env attempt)) = (evs, Some e) \<Longrightarrow>
   handle_error x attempt (repair_ok (env attempt)) e = (handler_evs, Continue) \<Longrightarrow>
   attempts left attempt env x =
     AttemptStarted attempt # evs @ handler_evs @ attempts (left - 1) (attempt + 1) env x"
  by (cases left) simp_all

text \<open>
  C10 (as the code has it). Every row that the durable upsert of either engine binds to
  an \<open>INSERT\<close> or an \<open>UPDATE\<close> of \<open>documents\<close>, in any attempt and whatever the shard store
  answers, is the prepared row: its content has at most 2,000,000 characters and no NUL,
  its file name has no NUL, and its file type has at most 100 characters. Its file name
  has at most 500 characters when the given \<open>file_name\<close> is not empty; when it is empty,
  the name written is \<open>os.path.basename(file_path)\<close> without its NUL characters, at its
  full length.
\<close>

theorem upsert_rows_are_sanitized:
  "\<forall>r \<in> set (rows_written (add_to_complete_layer db_ready env x)) \<union>
          set (rows_written (snd (add_document_to_db env x))).
     r = safe_row x \<and>
     length (d_content r) \<le> 2000000 \<and> 0 \<notin> set (d_content r) \<and>
     0 \<notin> set (d_file_name r) \<and>
     length (d_file_type r) \<le> 100 \<and>
     (u_file_name x \<noteq> [] \<longrightarrow> length (d_file_name r) \<le> 500) \<and>
     (u_file_name x = [] \<longrightarrow> d_file_name r = remove_nul (u_basename x))"
proof
  fix r
  assume "r \<in> set (rows_written (add_to_complete_layer db_ready env x)) \<union>
              set (rows_written (snd (add_document_to_db env x)))"
  then consider
      ev where "ev \<in> set (add_to_complete_layer db_ready env x)" "written_row ev = Some r"
    | ev where "ev \<in> set (snd (add_document_to_db env x))" "written_row ev = Some r"
    by (auto simp: set_rows_written)
  then have "r = safe_row x"
  proof cases
    case 1
    then show ?thesis
      using attempts_rows [of ev max_retries 0 env x r]
      by (auto simp: add_to_complete_layer_def split: if_splits)
  next
    case 2
    then show ?thesis
      using db_attempts_rows [of ev max_retries 0 env x r]
      by (simp add: add_document_to_db_def)
  qed
  with safe_row_bounds [of x] safe_row_file_name [of x]
  show "r = safe_row x \<and>
     length (d_content r) \<le> 2000000 \<and> 0 \<notin> set (d_content r) \<and>
     0 \<notin> set (d_file_name r) \<and>
     length (d_file_type r) \<le> 100 \<and>
     (u_file_name x \<noteq> [] \<longrightarrow> length (d_file_name r) \<le> 500) \<and>
     (u_file_name x = [] \<longrightarrow> d_file_name r = remove_nul (u_basename x))"
    by simp
qed

text \<open>
  An instance: the file \<open>/a\<close> with the content \<open>h\<close>, NUL, \<open>i\<close>, the name \<open>a\<close> and no
  type, inserted at the first attempt. The row written has the content \<open>hi\<close>, the name
  \<open>a\<close> and the type \<open>unknown\<close>.
\<close>

theorem upsert_rows_are_sanitized_witness:
  "[0x61] \<noteq> ([] :: ustr) \<and>
   rows_written
     (add_to_complete_layer True
        (\<lambda>attempt. \<lparr>db_file_exists = True, body = Absent InsertCommitted, repair_ok = True\<rparr>)
        \<lparr>u_file_path = [0x2F, 0x61], u_content = [0x68, 0, 0x69], u_file_name = [0x61],
         u_file_type = [], u_size = 3, u_file_hash = ''0cc175b9c0f1b6a831c399e269772661'',
         u_basename = [0x61]\<rparr>) =
     [\<lparr>d_file_path = [0x2F, 0x61], d_file_name = [0x61], d_content = [0x68, 0x69],
       d_file_type = [0x75, 0x6E, 0x6B, 0x6E, 0x6F, 0x77, 0x6E], d_size = 3,
       d_hash = ''0cc175b9c0f1b6a831c399e269772661''\<rparr>] \<and>
   length (d_content (safe_row
        \<lparr>u_file_path = [0x2F, 0x61], u_content = [0x68, 0, 0x69], u_file_name = [0x61],
         u_file_type = [], u_size = 3, u_file_hash = ''0cc175b9c0f1b6a831c399e269772661'',
         u_basename = [0x61]\<rparr>)) \<le> 2000000 \<and>
   0 \<notin> set (d_content (safe_row
        \<lparr>u_file_path = [0x2F, 0x61], u_content = [0x68, 0, 0x69], u_file_name = [0x61],
         u_file_type = [], u_size = 3, u_file_hash = ''0cc175b9c0f1b6a831c399e269772661'',
         u_basename = [0x61]\<rparr>)) \<and>
   length (d_file_name (safe_row
        \<lparr>u_file_path = [0x2F, 0x61], u_content = [0x68, 0, 0x69], u_file_name = [0x61],
         u_file_type = [], u_size = 3, u_file_hash = ''0cc175b9c0f1b6a831c399e269772661'',
         u_basename = [0x61]\<rparr>)) \<le> 500"
proof -
  let ?x = "\<lparr>u_file_path = [0x2F, 0x61], u_content = [0x68, 0, 0x69], u_file_name = [0x61],
         u_file_type = [], u_size = 3, u_file_hash = ''0cc175b9c0f1b6a831c399e269772661'',
         u_basename = [0x61]\<rparr>"
  let ?env = "\<lambda>attempt :: nat. \<lparr>db_file_exists = True, body = Absent InsertCommitted, repair_ok = True\<rparr>"
  let ?row = "\<lparr>d_file_path = [0x2F, 0x61], d_file_name = [0x61], d_content = [0x68, 0x69],
       d_file_type = [0x75, 0x6E, 0x6B, 0x6E, 0x6F, 0x77, 0x6E], d_size = 3,
       d_hash = ''0cc175b9c0f1b6a831c399e269772661''\<rparr>"
  have named: "u_file_name ?x \<noteq> []"
    by simp
  have row: "safe_row ?x = ?row"
    by (simp add: safe_row_def remove_nul_def ascii_def)
  have ra: "run_attempt ?x (body (?env 0)) = ([InsertRow ?row, Commit], None)"
    by (simp add: run_attempt_def row)
  have "attempts (Suc 7) 0 ?env ?x = [AttemptStarted 0, InsertRow ?row, Commit]"
    by (rule attempts_success [OF _ ra]) simp
  then have evs: "add_to_complete_layer True ?env ?x = [AttemptStarted 0, InsertRow ?row, Commit]"
    by (simp only: add_to_complete_layer_def max_retries_Suc simp_thms if_False)
  have val: "rows_written (add_to_complete_layer True ?env ?x) = [?row]"
    unfolding evs by (simp add: rows_written_def map_filter_simps)
  have mem: "safe_row ?x \<in> set (rows_written (add_to_complete_layer True ?env ?x)) \<union>
      set (rows_written (snd (add_document_to_db ?env ?x)))"
    unfolding val row by simp
  note main = upsert_rows_are_sanitized [of True ?env ?x, THEN bspec, OF mem]
  from main have bounds: "length (d_content (safe_row ?x)) \<le> 2000000"
    "0 \<notin> set (d_content (safe_row ?x))"
    by blast+
  from main named have name: "length (d_file_name (safe_row ?x)) \<le> 500"
    by blast
  from val bounds name show ?thesis
    by simp
qed

text \<open>
  C10 as stated fails for the file name. Both engines cut \<open>file_name\<close> only when it is
  not empty: \<open>base_data['file_name'][:500] if base_data['file_name'] else
  os.path.basename(file_path)\<close>. With an empty \<open>file_name\<close> and a path whose last
  component is 501 times the letter \<open>a\<close>, each engine inserts a row whose file name has
  501 characters.
\<close>

theorem upsert_writes_uncut_base_name:
  "map (\<lambda>r. length (d_file_name r))
     (rows_written
        (add_to_complete_layer True
           (\<lambda>attempt. \<lparr>db_file_exists = True, body = Absent InsertCommitted, repair_ok = True\<rparr>)
           \<lparr>u_file_path = 0x2F # replicate 501 0x61, u_content = [0x68, 0x69], u_file_name = [],
            u_file_type = [0x2E, 0x74], u_size = 2,
            u_file_hash = ''49f68a5c8493ec2c0bf489821c21fc3b'',
            u_basename = replicate 501 0x61\<rparr>)) = [501] \<and>
   map (\<lambda>r. length (d_file_name r))
     (rows_written
        (snd (add_document_to_db
           (\<lambda>attempt. \<lparr>db_file_exists = True, body = Absent InsertCommitted, repair_ok = True\<rparr>)
           \<lparr>u_file_path = 0x2F # replicate 501 0x61, u_content = [0x68, 0x69], u_file_name = [],
            u_file_type = [0x2E, 0x74], u_size = 2,
            u_file_hash = ''49f68a5c8493ec2c0bf489821c21fc3b'',
            u_basename = replicate 501 0x61\<rparr>))) = [501]"
proof -
  let ?x = "\<lparr>u_file_path = 0x2F # replicate 501 0x61, u_content = [0x68, 0x69], u_file_name = [],
            u_file_type = [0x2E, 0x74], u_size = 2,
            u_file_hash = ''49f68a5c8493ec2c0bf489821c21fc3b'',
            u_basename = replicate 501 0x61\<rparr>"
  let ?env = "\<lambda>attempt :: nat. \<lparr>db_file_exists = True, body = Absent InsertCommitted, repair_ok = True\<rparr>"
  have name: "length (d_file_name (safe_row ?x)) = 501"
    by (simp add: safe_row_def remove_nul_def)
  have ra: "run_attempt ?x (body (?env 0)) = ([InsertRow (safe_row ?x), Commit], None)"
    by (simp add: run_attempt_def)
  have "attempts (Suc 7) 0 ?env ?x = [AttemptStarted 0, InsertRow (safe_row ?x), Commit]"
    by (rule attempts_success [OF _ ra]) simp
  then have mono: "add_to_complete_layer True ?env ?x =
      [AttemptStarted 0, InsertRow (safe_row ?x), Commit]"
    by (simp only: add_to_complete_layer_def max_retries_Suc simp_thms if_False)
  have dra: "db_run_attempt ?x (body (?env 0)) = ([InsertRow (safe_row ?x), Commit], None)"
    by (simp add: db_run_attempt_def)
  have "db_attempts (Suc 7) 0 ?env ?x = (True, [AttemptStarted 0, InsertRow (safe_row ?x), Commit])"
    by (rule db_attempts_success [OF dra])
  then have modular: "add_document_to_db ?env ?x =
      (True, [AttemptStarted 0, InsertRow (safe_row ?x), Commit])"
    by (simp only: add_document_to_db_def max_retries_Suc)
  show ?thesis
    unfolding mono modular by (simp add: rows_written_def map_filter_simps name)
qed

section \<open>Facts about repair and retry after an integrity error\<close>

lemma run_attempt_no_attempt_no_repair:
  "filter is_attempt (fst (run_attempt x b)) = []"
  "filter is_repair (fst (run_attempt x b)) = []"
  by (auto simp: run_attempt_def split: attempt_body.splits write_outcome.splits
      insert_outcome.splits db_error.splits reselect.splits)

lemma handle_error_no_attempt:
  "filter is_attempt (fst (handle_error x attempt ok e)) = []"
  by (auto simp: handle_error_def split: db_error.splits)

lemma handle_error_repairs:
  "length (filter is_repair (fst (handle_error x attempt ok e))) \<le> 1"
  by (auto simp: handle_error_def split: db_error.splits)

lemma attempts_counts:
  "length (filter is_attempt (attempts left attempt env x)) \<le> left \<and>
   length (filter is_repair (attempts left attempt env x)) \<le>
     length (filter is_attempt (attempts left attempt env x))"
proof (induction left arbitrary: attempt)
  case 0
  show ?case by simp
next
  case (Suc left)
  show ?case
  proof (cases "db_file_exists (env attempt)")
    case False
    then show ?thesis by simp
  next
    case True
    obtain evs res where ra: "run_attempt x (body (env attempt)) = (evs, res)"
      by (cases "run_attempt x (body (env attempt))")
    have evs: "filter is_attempt evs = []" "filter is_repair evs = []"
      using run_attempt_no_attempt_no_repair [of x "body (env attempt)"] ra by simp_all
    show ?thesis
    proof (cases res)
      case None
      with True ra evs show ?thesis by simp
    next
      case (Some e)
      obtain hevs nxt where he: "handle_error x attempt (repair_ok (env attempt)) e = (hevs, nxt)"
        by (cases "handle_error x attempt (repair_ok (env attempt)) e")
      have hevs: "filter is_attempt hevs = []" "length (filter is_repair hevs) \<le> 1"
        using handle_error_no_attempt [of x attempt "repair_ok (env attempt)" e]
          handle_error_repairs [of x attempt "repair_ok (env attempt)" e] he by simp_all
      show ?thesis
      proof (cases nxt)
        case Continue
        with True ra Some he evs hevs Suc.IH [of "attempt + 1"] show ?thesis
          by simp
      next
        case Break
        with True ra Some he evs hevs show ?thesis
          by simp
      qed
    qed
  qed
qed

lemma db_attempts_integrity_error:
  "db_run_attempt x (body (env attempt)) = (evs, Some (IntegrityError msg)) \<Longrightarrow>
   db_attempts (Suc left) attempt env x = (False, AttemptStarted attempt # evs @ [LogError])"
  by simp

lemma add_document_to_db_integrity_error:
  assumes "db_run_attempt x (body (env 0)) = (evs, Some (IntegrityError msg))"
  shows "add_document_to_db env x = (False, AttemptStarted 0 # evs @ [LogError])"
  unfolding add_document_to_db_def max_retries_Suc
  using assms by (rule db_attempts_integrity_error)

text \<open>
  C8. The insert of a path that another writer has just committed: the \<open>SELECT\<close> of the
  attempt, which runs before \<open>BEGIN EXCLUSIVE\<close>, finds no row; the \<open>INSERT\<close> then raises
  \<open>sqlite3.IntegrityError\<close>, because \<open>file_path\<close> is \<open>UNIQUE\<close>; and a second \<open>SELECT\<close> by
  path would find the row. \<open>DatabaseManager.add_document_to_db\<close> has no handler for the
  integrity error: its \<open>except Exception\<close> logs the error and returns \<open>False\<close> after this
  one attempt, with no rollback call, no second select, no repair and no retry, and the
  document is not stored. \<open>_add_to_complete_layer\<close>, on the same answers of the store,
  rolls back, selects the row by path and retries once as an update, which commits.
\<close>

theorem add_document_to_db_gives_up_on_integrity_error:
  assumes "db_file_exists (env 0)"
    and "body (env 0) = Absent (InsertFails (IntegrityError msg) (Duplicate row_id Committed))"
  shows "add_document_to_db env x =
           (False,
            [AttemptStarted 0, InsertRow (safe_row x), Raised (IntegrityError msg), LogError]) \<and>
         add_to_complete_layer True env x =
           [AttemptStarted 0, InsertRow (safe_row x), Raised (IntegrityError msg), Rollback,
            LogError, UpdateRow (safe_row x), Commit]"
proof
  have "db_run_attempt x (body (env 0)) =
      ([InsertRow (safe_row x), Raised (IntegrityError msg)], Some (IntegrityError msg))"
    by (simp add: db_run_attempt_def assms(2))
  from add_document_to_db_integrity_error [where env = env and x = x, OF this]
  show "add_document_to_db env x =
           (False,
            [AttemptStarted 0, InsertRow (safe_row x), Raised (IntegrityError msg), LogError])"
    by simp
next
  have ra: "run_attempt x (body (env 0)) =
      ([InsertRow (safe_row x), Raised (IntegrityError msg), Rollback, LogError,
        UpdateRow (safe_row x), Commit], None)"
    by (simp add: run_attempt_def assms(2))
  have "attempts (Suc 7) 0 env x =
      AttemptStarted 0 # [InsertRow (safe_row x), Raised (IntegrityError msg), Rollback, LogError,
        UpdateRow (safe_row x), Commit]"
    by (rule attempts_success [where env = env and attempt = 0 and x = x, OF assms(1) ra])
  then show "add_to_complete_layer True env x =
           [AttemptStarted 0, InsertRow (safe_row x), Raised (IntegrityError msg), Rollback,
            LogError, UpdateRow (safe_row x), Commit]"
    by (simp only: add_to_complete_layer_def max_retries_Suc simp_thms if_False)
qed

text \<open>
  The instance: the file \<open>/a\<close> with the content \<open>hi\<close>, and a store that answers the
  insert with \<open>UNIQUE constraint failed: documents.file_path\<close> and holds the row under
  the id 1.
\<close>

theorem add_document_to_db_gives_up_on_integrity_error_witness:
  "db_file_exists
     ((\<lambda>attempt. \<lparr>db_file_exists = True,
         body = Absent (InsertFails
                  (IntegrityError ''unique constraint failed: documents.file_path'')
                  (Duplicate 1 Committed)),
         repair_ok = True\<rparr>) (0 :: nat)) \<and>
   body
     ((\<lambda>attempt. \<lparr>db_file_exists = True,
         body = Absent (InsertFails
                  (IntegrityError ''unique constraint failed: documents.file_path'')
                  (Duplicate 1 Committed)),
         repair_ok = True\<rparr>) (0 :: nat)) =
     Absent (InsertFails (IntegrityError ''unique constraint failed: documents.file_path'')
       (Duplicate 1 Committed)) \<and>
   add_document_to_db
     (\<lambda>attempt. \<lparr>db_file_exists = True,
        body = Absent (InsertFails
                 (IntegrityError ''unique constraint failed: documents.file_path'')
                 (Duplicate 1 Committed)),
        repair_ok = True\<rparr>)
     \<lparr>u_file_path = [0x2F, 0x61], u_content = [0x68, 0x69], u_file_name = [0x61],
      u_file_type = [0x2E, 0x74], u_size = 2,
      u_file_hash = ''49f68a5c8493ec2c0bf489821c21fc3b'', u_basename = [0x61]\<rparr> =
     (False,
      [AttemptStarted 0,
       InsertRow \<lparr>d_file_path = [0x2F, 0x61], d_file_name = [0x61], d_content = [0x68, 0x69],
                  d_file_type = [0x2E, 0x74], d_size = 2,
                  d_hash = ''49f68a5c8493ec2c0bf489821c21fc3b''\<rparr>,
       Raised (IntegrityError ''unique constraint failed: documents.file_path''),
       LogError]) \<and>
   add_to_complete_layer True
     (\<lambda>attempt. \<lparr>db_file_exists = True,
        body = Absent (InsertFails
                 (IntegrityError ''unique constraint failed: documents.file_path'')
                 (Duplicate 1 Committed)),
        repair_ok = True\<rparr>)
     \<lparr>u_file_path = [0x2F, 0x61], u_content = [0x68, 0x69], u_file_name = [0x61],
      u_file_type = [0x2E, 0x74], u_size = 2,
      u_file_hash = ''49f68a5c8493ec2c0bf489821c21fc3b'', u_basename = [0x61]\<rparr> =
     [AttemptStarted 0,
      InsertRow \<lparr>d_file_path = [0x2F, 0x61], d_file_name = [0x61], d_content = [0x68, 0x69],
                 d_file_type = [0x2E, 0x74], d_size = 2,
                 d_hash = ''49f68a5c8493ec2c0bf489821c21fc3b''\<rparr>,
      Raised (IntegrityError ''unique constraint failed: documents.file_path''),
      Rollback, LogError,
      UpdateRow \<lparr>d_file_path = [0x2F, 0x61], d_file_name = [0x61], d_content = [0x68, 0x69],
                 d_file_type = [0x2E, 0x74], d_size = 2,
                 d_hash = ''49f68a5c8493ec2c0bf489821c21fc3b''\<rparr>,
      Commit]"
proof -
  let ?x = "\<lparr>u_file_path = [0x2F, 0x61], u_content = [0x68, 0x69], u_file_name = [0x61],
      u_file_type = [0x2E, 0x74], u_size = 2,
      u_file_hash = ''49f68a5c8493ec2c0bf489821c21fc3b'', u_basename = [0x61]\<rparr>"
  let ?e = "IntegrityError ''unique constraint failed: documents.file_path''"
  let ?env = "\<lambda>attempt :: nat. \<lparr>db_file_exists = True,
        body = Absent (InsertFails ?e (Duplicate 1 Committed)),
        repair_ok = True\<rparr>"
  have ex: "db_file_exists (?env 0)"
    by simp
  have b: "body (?env 0) = Absent (InsertFails ?e (Duplicate 1 Committed))"
    by simp
  have row: "safe_row ?x = \<lparr>d_file_path = [0x2F, 0x61], d_file_name = [0x61],
      d_content = [0x68, 0x69], d_file_type = [0x2E, 0x74], d_size = 2,
      d_hash = ''49f68a5c8493ec2c0bf489821c21fc3b''\<rparr>"
    by (simp add: safe_row_def remove_nul_def)
  from add_document_to_db_gives_up_on_integrity_error [OF ex b, of ?x] row
  show ?thesis
    by simp
qed

section \<open>Facts about the matcher\<close>

lemma variant_matches_sound:
  assumes "variant_matches q0 tv pv"
  shows "contains tv pv"
    and "length q0 \<ge> 3 \<longrightarrow> length (strip pv) \<ge> 3"
    and "length q0 = 2 \<longrightarrow> length (strip pv) \<ge> 2"
    and "length q0 = 1 \<longrightarrow> length (strip pv) \<ge> 1"
    and "length q0 \<ge> 4 \<longrightarrow> pv = tv \<or> pv = q0"
    and "length q0 < 4 \<longrightarrow> pv = tv \<or> length pv \<ge> 2"
proof -
  show "contains tv pv"
    using assms by (auto simp: variant_matches_def contains_def split: if_splits)
  show "length q0 \<ge> 3 \<longrightarrow> length (strip pv) \<ge> 3"
    using assms by (auto simp: variant_matches_def split: if_splits)
  show "length q0 = 2 \<longrightarrow> length (strip pv) \<ge> 2"
    using assms by (auto simp: variant_matches_def split: if_splits)
  show "length q0 = 1 \<longrightarrow> length (strip pv) \<ge> 1"
    using assms by (auto simp: variant_matches_def Suc_le_eq split: if_splits)
  show "length q0 \<ge> 4 \<longrightarrow> pv = tv \<or> pv = q0"
    using assms by (auto simp: variant_matches_def split: if_splits)
  show "length q0 < 4 \<longrightarrow> pv = tv \<or> length pv \<ge> 2"
    using assms by (auto simp: variant_matches_def split: if_splits)
qed

lemma variant_matches_original:
  assumes "contains text q0" and "length q0 \<ge> 2" and "strip q0 = q0"
  shows "variant_matches q0 text q0"
  using assms by (auto simp: variant_matches_def)

lemma enhanced_search_match_iff:
  "enhanced_search_match lower nfkc text (q0 # rest) \<longleftrightarrow>
     text \<noteq> [] \<and>
     (\<exists>p\<in>set (q0 # rest). \<exists>tv\<in>set (variants lower nfkc text).
        \<exists>pv\<in>set (variants lower nfkc p). variant_matches q0 tv pv)"
  by (simp only: enhanced_search_match_def list.case list_ex_iff) auto

lemma variant_matches_one_character:
  assumes "length q0 = 1" and "length pv \<le> 1" and "variant_matches q0 tv pv"
  shows "pv = tv"
  using assms by (auto simp: variant_matches_def split: if_splits)

text \<open>
  C5. The guards of the loop body carry the comments of the tiered rule; the last one
  reads: a query of one character is matched against patterns of one character or more.
  The substring test that follows them for a query of fewer than 4 characters is
  \<open>elif len(pattern_variant) >= 2 and pattern_variant in text_variant\<close>, so a form of one
  character, the only kind that the normalizer makes of a query of one ASCII letter,
  never matches inside a text; it matches only a text equal to it. The query \<open>a\<close> has the
  patterns \<open>a\<close> and the full-width \<open>a\<close>; the text \<open>abc\<close> contains the query and is not
  matched, with the normalizer's patterns or with the query alone. The text \<open>a\<close> is
  matched, and so is the text \<open>abc\<close> by the query \<open>ab\<close>.
\<close>

theorem one_character_query_misses_substring:
  "patterns ascii_lower nfkc_sample [0x61] = [[0x61], [0xFF41]] \<and>
   contains [0x61, 0x62, 0x63] [0x61 :: nat] \<and>
   \<not> enhanced_search_match ascii_lower nfkc_sample [0x61, 0x62, 0x63]
        (patterns ascii_lower nfkc_sample [0x61]) \<and>
   \<not> enhanced_search_match ascii_lower nfkc_sample [0x61, 0x62, 0x63] [[0x61]] \<and>
   enhanced_search_match ascii_lower nfkc_sample [0x61] [[0x61]] \<and>
   enhanced_search_match ascii_lower nfkc_sample [0x61, 0x62, 0x63] [[0x61, 0x62]]"
proof -
  note ev = enhanced_search_match_def variants_def variant_matches_def ascii_lower_def
    nfkc_sample_def hiragana_to_katakana_def katakana_to_hiragana_def contains_def
    sublist_Cons_right strip_def is_space_def
  have raw: "raw_patterns ascii_lower nfkc_sample [0x61] = [[0x61], [0xFF41]]"
    by (simp add: raw_patterns_def Let_def append_if_differs_def to_full_width_def
        ascii_lower_def nfkc_sample_def hiragana_to_katakana_def katakana_to_hiragana_def
        split_ws_def is_space_def)
  have ps: "patterns ascii_lower nfkc_sample [0x61] = [[0x61], [0xFF41]]"
    by (simp add: patterns_def normalize_search_text_ultra_def Let_def raw unique_patterns_def
        sort_desc_key_def)
  have c: "contains [0x61, 0x62, 0x63] [0x61 :: nat]"
    by (simp add: contains_def sublist_Cons_right)
  have n1: "\<not> enhanced_search_match ascii_lower nfkc_sample [0x61, 0x62, 0x63]
        [[0x61], [0xFF41]]"
    by (simp add: ev)
  have n2: "\<not> enhanced_search_match ascii_lower nfkc_sample [0x61, 0x62, 0x63] [[0x61]]"
    by (simp add: ev)
  have y1: "enhanced_search_match ascii_lower nfkc_sample [0x61] [[0x61]]"
    by (simp add: ev)
  have y2: "enhanced_search_match ascii_lower nfkc_sample [0x61, 0x62, 0x63] [[0x61, 0x62]]"
    by (simp add: ev)
  from c n1 n2 y1 y2 show ?thesis
    unfolding ps by (intro conjI) simp_all
qed

end
